theory Spec2Isabelle
  imports Complex_Main "HOL-Library.Extended_Nat"
begin

section \<open>JavaScript values\<close>

text \<open>
  The values the client handles: what \<^verbatim>\<open>JSON.parse\<close> returns, \<^verbatim>\<open>undefined\<close>, and the
  native error objects a failed property read throws. Text is kept as its UTF-8 bytes
  (\<^typ>\<open>string\<close>), a number as the real it denotes, an object as the list of its own
  properties in enumeration order.
\<close>

datatype jsval =
    Undefined
  | Null
  | Bool bool
  | Num real
  | Str string
  | Arr "jsval list"
  | Obj "(string \<times> jsval) list"
  | NativeError string

text \<open>
  \<^verbatim>\<open>v.k\<close> for the property names the program reads (\<^verbatim>\<open>data\<close>, \<^verbatim>\<open>errorCode\<close>,
  \<^verbatim>\<open>error\<close>, \<^verbatim>\<open>access_token\<close>, \<^verbatim>\<open>batchKey\<close>, \<^verbatim>\<open>jobId\<close>, ...): reading from
  \<^verbatim>\<open>undefined\<close> or \<^verbatim>\<open>null\<close> throws a TypeError (\<open>None\<close>); a primitive, an array
  or an error object has none of these properties.
\<close>

fun getProp :: "jsval \<Rightarrow> string \<Rightarrow> jsval option" where
  "getProp Undefined k = None"
| "getProp Null k = None"
| "getProp (Obj kvs) k = Some (case map_of kvs k of None \<Rightarrow> Undefined | Some v \<Rightarrow> v)"
| "getProp v k = Some Undefined"

text \<open>\<^verbatim>\<open>o.k = v\<close> on a plain object: an existing key keeps its place, a new one goes last.\<close>

fun assign :: "string \<Rightarrow> jsval \<Rightarrow> (string \<times> jsval) list \<Rightarrow> (string \<times> jsval) list" where
  "assign k v [] = [(k, v)]"
| "assign k v ((k', v') # kvs) = (if k = k' then (k, v) # kvs else (k', v') # assign k v kvs)"

text \<open>Truthiness, as \<^verbatim>\<open>!v\<close> and \<^verbatim>\<open>if (v)\<close> use it.\<close>

fun truthy :: "jsval \<Rightarrow> bool" where
  "truthy Undefined = False"
| "truthy Null = False"
| "truthy (Bool b) = b"
| "truthy (Num n) = (n \<noteq> 0)"
| "truthy (Str s) = (s \<noteq> [])"
| "truthy v = True"

text \<open>\<^verbatim>\<open>v == null\<close>.\<close>

fun nullish :: "jsval \<Rightarrow> bool" where
  "nullish Undefined = True"
| "nullish Null = True"
| "nullish v = False"

text \<open>
  \<^verbatim>\<open>v == "8535"\<close>, the loose comparison with the token-expired code. A number is compared
  with the number the string denotes, a string with the string itself; an array is first
  turned into the comma-joined text of its elements, which is \<^verbatim>\<open>"8535"\<close> only for a
  one-element array whose element prints as \<^verbatim>\<open>"8535"\<close>; a boolean becomes 0 or 1, a plain
  object \<^verbatim>\<open>"[object Object]"\<close>, an error object its name and message.
\<close>

fun eq8535 :: "jsval \<Rightarrow> bool" where
  "eq8535 (Num n) = (n = 8535)"
| "eq8535 (Str s) = (s = ''8535'')"
| "eq8535 (Arr [v]) = eq8535 v"
| "eq8535 v = False"

section \<open>The runtime and the two upstream hosts\<close>

datatype payload =
    NoBody
  | UrlEncoded "(string \<times> string) list"
  | FormFile string string
  | JsonBody string

record http_request =
  req_url :: string
  req_method :: string
  req_headers :: "(string \<times> string) list"
  req_body :: payload

datatype event =
    OauthRequest http_request
  | ApiRequest http_request
  | FileWritten string string

text \<open>What comes back for a request: a transport error with its message, or a status
  code and the bytes of the body.\<close>

datatype reply = NetError string | Reply nat string

text \<open>
  The built-ins of the runtime that the program calls, and the behaviour of the two hosts.
  A host answers a request knowing everything that went over the wire before it.
  \<open>JSON_parse\<close> is \<open>None\<close> where \<^verbatim>\<open>JSON.parse\<close> throws; \<open>utf8\<close> is the conversion of
  received bytes to text (\<^verbatim>\<open>data += chunk\<close>, \<^verbatim>\<open>Buffer.toString\<close>); \<open>ToString\<close> is
  string concatenation's conversion of a value; \<open>EOL\<close> is \<^verbatim>\<open>os.EOL\<close>; \<open>writable\<close>
  tells the paths at which \<^verbatim>\<open>fs.writeFileSync\<close> succeeds.
\<close>

record env =
  JSON_parse :: "string \<Rightarrow> jsval option"
  JSON_stringify :: "jsval \<Rightarrow> string"
  encodeURIComponent :: "string \<Rightarrow> string"
  ToString :: "jsval \<Rightarrow> string"
  utf8 :: "string \<Rightarrow> string"
  EOL :: string
  writable :: "string \<Rightarrow> bool"
  analytics :: "event list \<Rightarrow> http_request \<Rightarrow> reply"
  accounts :: "event list \<Rightarrow> http_request \<Rightarrow> reply"

definition analyticsURI :: string where
  "analyticsURI = ''analyticsapi.zoho.com''"

definition accountsURI :: string where
  "accountsURI = ''accounts.zoho.com''"

definition clientVersion :: string where
  "clientVersion = ''2.6.0''"

definition userAgent :: string where
  "userAgent = ''Analytics NodeJS Client v'' @ clientVersion"

section \<open>AnalyticsClient\<close>

text \<open>The fields of an \<^verbatim>\<open>AnalyticsClient\<close>, the requests sent so far, and the files on disk.\<close>

record state =
  clientId :: string
  clientSecret :: string
  refreshToken :: string
  accessToken :: jsval
  trace :: "event list"
  files :: "string \<Rightarrow> string option"

text \<open>
  How a promise ends: resolved with a value, rejected with a value, or \<open>Pending\<close> for
  good when an exception escapes the event listener that should have settled it (the
  exception then goes to the process as an uncaught one).
\<close>

datatype outcome = Resolved jsval | Rejected jsval | Pending

text \<open>\<^verbatim>\<open>h[k] = v\<close> on a header object.\<close>

fun setHeader :: "string \<Rightarrow> string \<Rightarrow> (string \<times> string) list \<Rightarrow> (string \<times> string) list" where
  "setHeader k v [] = [(k, v)]"
| "setHeader k v ((k', v') # h) = (if k = k' then (k, v) # h else (k', v') # setHeader k v h)"

definition logEvent :: "event \<Rightarrow> state \<Rightarrow> state" where
  "logEvent e st = st\<lparr>trace := trace st @ [e]\<rparr>"

subsection \<open>Numbers and text\<close>

text \<open>The decimal digits of a natural number: \<^verbatim>\<open>(resp.statusCode).toString()\<close>, and a
  number given as the value of a header.\<close>

fun decimal :: "nat \<Rightarrow> string" where
  "decimal n =
     (if n < 10 then [''0123456789'' ! n]
      else decimal (n div 10) @ [''0123456789'' ! (n mod 10)])"

declare decimal.simps [simp del]

text \<open>\<^verbatim>\<open>xs.join(sep)\<close> on an array of strings.\<close>

fun join :: "string list \<Rightarrow> string \<Rightarrow> string" where
  "join [] sep = []"
| "join [x] sep = x"
| "join (x # y # ys) sep = x @ sep @ join (y # ys) sep"

text \<open>
  Percent-encoding as encodeURIComponent and \<^verbatim>\<open>querystring.escape\<close> do it, on text held
  as UTF-8 bytes: a byte outside the unreserved characters becomes \<^verbatim>\<open>%\<close> and its two
  hexadecimal digits.
\<close>

definition hexUpper :: "nat \<Rightarrow> char" where
  "hexUpper d = ''0123456789ABCDEF'' ! d"

text \<open>The characters that encodeURIComponent leaves as they are: letters, digits and
  \<^verbatim>\<open>- _ . ! ~ * ' ( )\<close>.\<close>

definition uriUnreserved :: "char \<Rightarrow> bool" where
  "uriUnreserved c =
     (let n = (of_char c :: nat)
      in (65 \<le> n \<and> n \<le> 90) \<or> (97 \<le> n \<and> n \<le> 122) \<or> (48 \<le> n \<and> n \<le> 57) \<or>
         n \<in> {45, 95, 46, 33, 126, 42, 39, 40, 41})"

fun uriEncode :: "string \<Rightarrow> string" where
  "uriEncode [] = []"
| "uriEncode (c # cs) =
     (if uriUnreserved c then [c]
      else [CHR ''%'', hexUpper (of_char c div 16), hexUpper (of_char c mod 16)]) @ uriEncode cs"

text \<open>\<^verbatim>\<open>querystring.stringify\<close> on an object whose values are strings.\<close>

definition querystringStringify :: "(string \<times> string) list \<Rightarrow> string" where
  "querystringStringify params = join (map (\<lambda>(k, v). uriEncode k @ ''='' @ uriEncode v) params) ''&''"

subsection \<open>getOauth\<close>

text \<open>The token request: the form is written as \<^verbatim>\<open>querystring.stringify\<close> gives it, and
  its length is the \<^verbatim>\<open>Content-Length\<close> header.\<close>

definition oauthinfo :: "state \<Rightarrow> (string \<times> string) list" where
  "oauthinfo st = [(''client_id'', clientId st),
                   (''client_secret'', clientSecret st),
                   (''refresh_token'', refreshToken st),
                   (''grant_type'', ''refresh_token'')]"

definition oauthRequest :: "state \<Rightarrow> http_request" where
  "oauthRequest st =
     \<lparr>req_url = ''https://'' @ accountsURI @ ''/oauth/v2/token'',
      req_method = ''POST'',
      req_headers = [(''Content-Type'', ''application/x-www-form-urlencoded''),
                 (''User-Agent'', userAgent),
                 (''Content-Length'', decimal (length (querystringStringify (oauthinfo st))))],
      req_body = UrlEncoded (oauthinfo st)\<rparr>"

text \<open>The \<^verbatim>\<open>end\<close> listener of getOauth, on the text received.\<close>

definition oauthEnd :: "env \<Rightarrow> string \<Rightarrow> outcome" where
  "oauthEnd env data =
     (case JSON_parse env data of
        None \<Rightarrow> Pending
      | Some respJSON \<Rightarrow>
          (case getProp respJSON ''error'' of
             None \<Rightarrow> Pending
           | Some e \<Rightarrow>
               if \<not> truthy e
               then (case getProp respJSON ''access_token'' of
                       None \<Rightarrow> Pending
                     | Some t \<Rightarrow> Resolved t)
               else Rejected (Obj [(''errorCode'', Str ''0''), (''errorMessage'', e)])))"

text \<open>
  getOauth. The \<^verbatim>\<open>data\<close> listener adds each chunk of the body to a string; the body
  is taken to arrive as a single chunk, and \<open>utf8\<close> is its conversion to text.
\<close>

definition getOauth :: "env \<Rightarrow> state \<Rightarrow> outcome \<times> state" where
  "getOauth env st =
     (let req = oauthRequest st;
          st' = logEvent (OauthRequest req) st
      in case accounts env (trace st) req of
           NetError msg \<Rightarrow> (Rejected (Str msg), st')
         | Reply code bytes \<Rightarrow> (oauthEnd env (utf8 env bytes), st'))"

subsection \<open>sendV2Request\<close>

definition startsWith :: "string \<Rightarrow> string \<Rightarrow> bool" where
  "startsWith s p = (take (length p) s = p)"

text \<open>
  The calls a listener makes on the two settling functions of its promise, in order.
  Only the first call settles the promise; later ones have no effect.
\<close>

datatype settle = Resolve jsval | Reject jsval

fun settled :: "settle list option \<Rightarrow> outcome" where
  "settled None = Pending"
| "settled (Some []) = Pending"
| "settled (Some (Resolve v # cs)) = Resolved v"
| "settled (Some (Reject v # cs)) = Rejected v"

text \<open>
  The \<^verbatim>\<open>end\<close> listener of sendV2Request, on the status code and the text received:
  the settling calls it makes, or \<open>None\<close> when \<^verbatim>\<open>JSON.parse(data)\<close> or
  \<^verbatim>\<open>respJSON.data\<close> throws, which happens before any call. The last statement of the
  listener, \<^verbatim>\<open>resolve()\<close>, is outside the \<^verbatim>\<open>if\<close> chain.
\<close>

definition v2End :: "env \<Rightarrow> bool \<Rightarrow> nat \<Rightarrow> string \<Rightarrow> settle list option" where
  "v2End env isExportReq statusCode data =
     (let respCode = decimal statusCode;
          isRequestFailed = (\<not> startsWith respCode ''2'');
          hasResponse = (respCode = ''200'')
      in if isRequestFailed then
           (case JSON_parse env data of
              None \<Rightarrow> None
            | Some respJSON \<Rightarrow>
                (case getProp respJSON ''data'' of
                   None \<Rightarrow> None
                 | Some d \<Rightarrow> Some [Reject d, Resolve Undefined]))
         else if isExportReq then Some [Resolve (Str data), Resolve Undefined]
         else if hasResponse then
           (case JSON_parse env data of
              None \<Rightarrow> None
            | Some respJSON \<Rightarrow>
                (case getProp respJSON ''data'' of
                   None \<Rightarrow> None
                 | Some d \<Rightarrow> Some [Resolve d, Resolve Undefined]))
         else Some [Resolve Undefined])"

type_synonym config = "(string \<times> jsval) list"

text \<open>The path with the \<^verbatim>\<open>CONFIG\<close> parameter, when there is a config with a key.\<close>

definition v2Path :: "env \<Rightarrow> string \<Rightarrow> config option \<Rightarrow> string" where
  "v2Path env uriPath config =
     (case config of
        None \<Rightarrow> uriPath
      | Some cfg \<Rightarrow>
          if length cfg \<noteq> 0
          then uriPath @ ''?'' @ (''CONFIG'' @ ''='' @ encodeURIComponent env (JSON_stringify env (Obj cfg)))
          else uriPath)"

definition v2Request ::
  "env \<Rightarrow> state \<Rightarrow> string \<Rightarrow> string \<Rightarrow> config option \<Rightarrow> (string \<times> string) list \<Rightarrow> http_request" where
  "v2Request env st uriPath reqMethod config header =
     \<lparr>req_url = ''https://'' @ analyticsURI @ v2Path env uriPath config,
      req_method = reqMethod,
      req_headers = setHeader ''Authorization'' (''Zoho-oauthtoken '' @ ToString env (accessToken st))
                  (setHeader ''User-Agent'' userAgent header),
      req_body = NoBody\<rparr>"

text \<open>
  sendV2Request. On a transport error the \<^verbatim>\<open>error\<close> listener runs
  \<^verbatim>\<open>reject(JSON.parse(err))\<close> on the error object, that is on its text
  \<^verbatim>\<open>"Error: " + message\<close>.
\<close>

definition sendV2Request ::
  "env \<Rightarrow> state \<Rightarrow> string \<Rightarrow> string \<Rightarrow> config option \<Rightarrow> (string \<times> string) list \<Rightarrow> bool
     \<Rightarrow> outcome \<times> state" where
  "sendV2Request env st uriPath reqMethod config header isExportReq =
     (let req = v2Request env st uriPath reqMethod config header;
          st' = logEvent (ApiRequest req) st
      in case analytics env (trace st) req of
           NetError msg \<Rightarrow>
             (case JSON_parse env (''Error: '' @ msg) of
                None \<Rightarrow> (Pending, st')
              | Some v \<Rightarrow> (Rejected v, st'))
         | Reply statusCode bytes \<Rightarrow>
             (settled (v2End env isExportReq statusCode (utf8 env bytes)), st'))"

subsection \<open>handleV2Request\<close>

text \<open>
  The first statement of every handler:
  \<^verbatim>\<open>if (this.accessToken == null) this.accessToken = await this.getOauth();\<close>
\<close>

definition ensureAccessToken :: "env \<Rightarrow> state \<Rightarrow> outcome \<times> state" where
  "ensureAccessToken env st =
     (if nullish (accessToken st)
      then (case getOauth env st of
              (Resolved t, st') \<Rightarrow> (Resolved t, st'\<lparr>accessToken := t\<rparr>)
            | (Rejected e, st') \<Rightarrow> (Rejected e, st')
            | (Pending, st') \<Rightarrow> (Pending, st'))
      else (Resolved (accessToken st), st))"

text \<open>
  handleV2Request: the request is sent; a rejection goes to the \<^verbatim>\<open>catch\<close> callback,
  which reads \<^verbatim>\<open>error.errorCode\<close> (a TypeError when the rejection value is
  \<^verbatim>\<open>undefined\<close> or \<^verbatim>\<open>null\<close>), and on the token-expired code fetches a token and
  sends the request again, outside any further \<^verbatim>\<open>catch\<close>.
\<close>

definition handleV2Request ::
  "env \<Rightarrow> state \<Rightarrow> string \<Rightarrow> string \<Rightarrow> config option \<Rightarrow> (string \<times> string) list \<Rightarrow> bool
     \<Rightarrow> outcome \<times> state" where
  "handleV2Request env st uriPath method config header isExportReq =
     (case ensureAccessToken env st of
        (Rejected e, st1) \<Rightarrow> (Rejected e, st1)
      | (Pending, st1) \<Rightarrow> (Pending, st1)
      | (Resolved t, st1) \<Rightarrow>
          (case sendV2Request env st1 uriPath method config header isExportReq of
             (Rejected error, st2) \<Rightarrow>
               (case getProp error ''errorCode'' of
                  None \<Rightarrow> (Rejected (NativeError ''TypeError''), st2)
                | Some code \<Rightarrow>
                    if eq8535 code then
                      (case getOauth env st2 of
                         (Resolved t', st3) \<Rightarrow>
                           sendV2Request env (st3\<lparr>accessToken := t'\<rparr>) uriPath method config header isExportReq
                       | (Rejected e, st3) \<Rightarrow> (Rejected e, st3)
                       | (Pending, st3) \<Rightarrow> (Pending, st3))
                    else (Rejected error, st2))
           | (Resolved v, st2) \<Rightarrow> (Resolved v, st2)
           | (Pending, st2) \<Rightarrow> (Pending, st2)))"

text \<open>What a call put on the wire: the events after those of the state it started from.\<close>

definition emitted :: "event list \<Rightarrow> event list \<Rightarrow> event list" where
  "emitted before after = drop (length before) after"

fun isApiRequest :: "event \<Rightarrow> bool" where
  "isApiRequest (ApiRequest r) = True"
| "isApiRequest e = False"

fun isOauthRequest :: "event \<Rightarrow> bool" where
  "isOauthRequest (OauthRequest r) = True"
| "isOauthRequest e = False"

section \<open>The relay (server.js)\<close>

text \<open>The module variables of the relay and the requests it has sent.\<close>

record relay =
  zohoAccessToken :: jsval
  zohoRefreshToken :: string
  relayClientId :: string
  relayClientSecret :: string
  wire :: "event list"

text \<open>An \<^verbatim>\<open>async\<close> function of the relay returns a value or throws one.\<close>

datatype result = Returned jsval | Threw jsval

definition relayLog :: "event \<Rightarrow> relay \<Rightarrow> relay" where
  "relayLog e st = st\<lparr>wire := wire st @ [e]\<rparr>"

definition refreshRequest :: "relay \<Rightarrow> http_request" where
  "refreshRequest st =
     \<lparr>req_url = ''https://accounts.zoho.com/oauth/v2/token'',
      req_method = ''POST'',
      req_headers = [(''Content-Type'', ''application/x-www-form-urlencoded'')],
      req_body = UrlEncoded [(''grant_type'', ''refresh_token''),
                         (''refresh_token'', zohoRefreshToken st),
                         (''client_id'', relayClientId st),
                         (''client_secret'', relayClientSecret st)]\<rparr>"

text \<open>
  refreshZohoToken: \<^verbatim>\<open>fetch\<close> throws on a transport error, \<^verbatim>\<open>response.json()\<close> on a
  body that is not JSON, \<^verbatim>\<open>data.access_token\<close> on \<^verbatim>\<open>null\<close>; the \<^verbatim>\<open>catch\<close> block
  logs and rethrows.
\<close>

definition refreshZohoToken :: "env \<Rightarrow> relay \<Rightarrow> result \<times> relay" where
  "refreshZohoToken env st =
     (let req = refreshRequest st;
          st' = relayLog (OauthRequest req) st
      in case accounts env (wire st) req of
           NetError msg \<Rightarrow> (Threw (NativeError msg), st')
         | Reply status bytes \<Rightarrow>
             (case JSON_parse env (utf8 env bytes) of
                None \<Rightarrow> (Threw (NativeError ''invalid json response body''), st')
              | Some data \<Rightarrow>
                  (case getProp data ''access_token'' of
                     None \<Rightarrow> (Threw (NativeError ''TypeError''), st')
                   | Some t \<Rightarrow>
                       if truthy t then (Returned t, st'\<lparr>zohoAccessToken := t\<rparr>)
                       else
                         (case getProp data ''error'' of
                            None \<Rightarrow> (Threw (NativeError ''TypeError''), st')
                          | Some e \<Rightarrow>
                              (Threw (NativeError (''Failed to refresh Zoho token: '' @
                                 ToString env (if truthy e then e else Str ''Unknown error''))), st')))))"

text \<open>What a middleware or route writes on \<^verbatim>\<open>res\<close>: the status and the JSON body.\<close>

type_synonym response = "nat \<times> jsval"

text \<open>ensureZohoAccessToken: \<open>None\<close> is the call of \<^verbatim>\<open>next()\<close>.\<close>

definition ensureZohoAccessToken :: "env \<Rightarrow> relay \<Rightarrow> response option \<times> relay" where
  "ensureZohoAccessToken env st =
     (if \<not> truthy (zohoAccessToken st)
      then (case refreshZohoToken env st of
              (Returned t, st') \<Rightarrow> (None, st')
            | (Threw e, st') \<Rightarrow>
                (Some (500, Obj [(''error'', Str ''Unable to refresh Zoho access token'')]), st'))
      else (None, st))"


definition fetchFailed :: response where
  "fetchFailed = (500, Obj [(''error'', Str ''Error fetching Zoho data'')])"

text \<open>
  The end of handleZohoApiRequest, on the response it is left with. When the response is
  not \<^verbatim>\<open>ok\<close> (a status outside 200..299) the body is read and an error thrown; every
  throw inside the function reaches its \<^verbatim>\<open>catch\<close> block, which answers 500.
\<close>

definition relayAnswer :: "env \<Rightarrow> nat \<Rightarrow> string \<Rightarrow> response" where
  "relayAnswer env status bytes =
     (if \<not> (200 \<le> status \<and> status \<le> 299) then fetchFailed
      else (case JSON_parse env (utf8 env bytes) of
              None \<Rightarrow> fetchFailed
            | Some data \<Rightarrow> (200, data)))"





subsection \<open>Export to a file\<close>

text \<open>
  sendExportRequest appends the \<^verbatim>\<open>CONFIG\<close> parameter for every config other than
  \<^verbatim>\<open>null\<close>. The callback of \<^verbatim>\<open>request.get\<close> gets the body as a Buffer
  (\<^verbatim>\<open>encoding: null\<close>): on status 200 the bytes go to the file as they are; on any other
  status \<^verbatim>\<open>JSON.parse(body)\<close> reads the body as text. An exception in the callback
  (\<^verbatim>\<open>JSON.parse\<close>, \<^verbatim>\<open>respJSON.data\<close>, \<^verbatim>\<open>fs.writeFileSync\<close>) leaves the promise pending.
\<close>

definition exportPath :: "env \<Rightarrow> string \<Rightarrow> config option \<Rightarrow> string" where
  "exportPath env uriPath config =
     (case config of
        None \<Rightarrow> uriPath
      | Some cfg \<Rightarrow>
          uriPath @ ''?'' @ (''CONFIG'' @ ''='' @ encodeURIComponent env (JSON_stringify env (Obj cfg))))"

definition exportRequest ::
  "env \<Rightarrow> state \<Rightarrow> string \<Rightarrow> config option \<Rightarrow> (string \<times> string) list \<Rightarrow> http_request" where
  "exportRequest env st uriPath config header =
     \<lparr>req_url = ''https://'' @ analyticsURI @ exportPath env uriPath config,
      req_method = ''GET'',
      req_headers = setHeader ''Authorization'' (''Zoho-oauthtoken '' @ ToString env (accessToken st))
                  (setHeader ''User-Agent'' userAgent header),
      req_body = NoBody\<rparr>"

definition sendExportRequest ::
  "env \<Rightarrow> state \<Rightarrow> string \<Rightarrow> string \<Rightarrow> config option \<Rightarrow> (string \<times> string) list
     \<Rightarrow> outcome \<times> state" where
  "sendExportRequest env st uriPath filePath config header =
     (let req = exportRequest env st uriPath config header;
          st' = logEvent (ApiRequest req) st
      in case analytics env (trace st) req of
           NetError msg \<Rightarrow>
             (case JSON_parse env (''Error: '' @ msg) of
                None \<Rightarrow> (Pending, st')
              | Some v \<Rightarrow> (Rejected v, st'))
         | Reply statusCode bytes \<Rightarrow>
             if statusCode \<noteq> 200 then
               (case JSON_parse env (utf8 env bytes) of
                  None \<Rightarrow> (Pending, st')
                | Some respJSON \<Rightarrow>
                    (case getProp respJSON ''data'' of
                       None \<Rightarrow> (Pending, st')
                     | Some d \<Rightarrow> (Rejected d, st')))
             else if writable env filePath
             then (Resolved Undefined,
                   logEvent (FileWritten filePath bytes) (st'\<lparr>files := (files st')(filePath \<mapsto> bytes)\<rparr>))
             else (Pending, st'))"

definition handleExportRequest ::
  "env \<Rightarrow> state \<Rightarrow> string \<Rightarrow> string \<Rightarrow> config option \<Rightarrow> (string \<times> string) list
     \<Rightarrow> outcome \<times> state" where
  "handleExportRequest env st uriPath filePath config header =
     (case ensureAccessToken env st of
        (Rejected e, st1) \<Rightarrow> (Rejected e, st1)
      | (Pending, st1) \<Rightarrow> (Pending, st1)
      | (Resolved t, st1) \<Rightarrow>
          (case sendExportRequest env st1 uriPath filePath config header of
             (Rejected error, st2) \<Rightarrow>
               (case getProp error ''errorCode'' of
                  None \<Rightarrow> (Rejected (NativeError ''TypeError''), st2)
                | Some code \<Rightarrow>
                    if eq8535 code then
                      (case getOauth env st2 of
                         (Resolved t', st3) \<Rightarrow>
                           sendExportRequest env (st3\<lparr>accessToken := t'\<rparr>) uriPath filePath config header
                       | (Rejected e, st3) \<Rightarrow> (Rejected e, st3)
                       | (Pending, st3) \<Rightarrow> (Pending, st3))
                    else (Rejected error, st2))
           | (Resolved v, st2) \<Rightarrow> (Resolved v, st2)
           | (Pending, st2) \<Rightarrow> (Pending, st2)))"

subsection \<open>Batch import\<close>

text \<open>
  \<^verbatim>\<open>s.split(sep)\<close>: the pieces of \<open>s\<close> between the occurrences of \<open>sep\<close>, found from
  the left. (\<^verbatim>\<open>os.EOL\<close> is never empty; for the empty separator the pieces are the
  single characters.)
\<close>

function splitFrom :: "string \<Rightarrow> string \<Rightarrow> string \<Rightarrow> string list" where
  "splitFrom sep acc [] = [rev acc]"
| "splitFrom sep acc (c # cs) =
     (if sep \<noteq> [] \<and> take (length sep) (c # cs) = sep
      then rev acc # splitFrom sep [] (drop (length sep) (c # cs))
      else splitFrom sep (c # acc) cs)"
  by pat_completeness auto
termination
  by (relation "measure (\<lambda>(sep, acc, s). length s)") auto

definition split :: "string \<Rightarrow> string \<Rightarrow> string list" where
  "split s sep = (if sep = [] then map (\<lambda>c. [c]) s else splitFrom sep [] s)"










section \<open>The resource classes\<close>

text \<open>
  A method of a resource class gets the caller's config object, or makes an empty one
  when the argument is left out, and writes its own arguments into it. The functions
  return, beside the outcome and the client, the config object as the call leaves it.
\<close>

record OrgAPI =
  orgHeader :: "(string \<times> string) list"

definition newOrgAPI :: "string \<Rightarrow> OrgAPI" where
  "newOrgAPI orgId = \<lparr>orgHeader = setHeader ''ZANALYTICS-ORGID'' orgId []\<rparr>"

definition createWorkspace ::
  "env \<Rightarrow> state \<Rightarrow> OrgAPI \<Rightarrow> jsval \<Rightarrow> config \<Rightarrow> outcome \<times> state \<times> config" where
  "createWorkspace env st this workspaceName config =
     (let uriPath = ''/restapi/v2/workspaces'';
          config' = assign ''workspaceName'' workspaceName config
      in case handleV2Request env st uriPath ''POST'' (Some config') (orgHeader this) False of
           (Resolved result, st') \<Rightarrow>
             (case getProp result ''workspaceId'' of
                None \<Rightarrow> (Rejected (NativeError ''TypeError''), st', config')
              | Some workspaceId \<Rightarrow> (Resolved workspaceId, st', config'))
         | (Rejected e, st') \<Rightarrow> (Rejected e, st', config')
         | (Pending, st') \<Rightarrow> (Pending, st', config'))"

definition getAdmins :: "env \<Rightarrow> state \<Rightarrow> OrgAPI \<Rightarrow> config \<Rightarrow> outcome \<times> state \<times> config" where
  "getAdmins env st this config =
     (let uriPath = ''/restapi/v2/orgadmins''
      in case handleV2Request env st uriPath ''GET'' (Some config) (orgHeader this) False of
           (Resolved result, st') \<Rightarrow>
             (case getProp result ''orgAdmins'' of
                None \<Rightarrow> (Rejected (NativeError ''TypeError''), st', config)
              | Some orgAdmins \<Rightarrow> (Resolved orgAdmins, st', config))
         | (Rejected e, st') \<Rightarrow> (Rejected e, st', config)
         | (Pending, st') \<Rightarrow> (Pending, st', config))"

record ViewAPI =
  viewUriPath :: string
  viewHeader :: "(string \<times> string) list"

definition newViewAPI :: "string \<Rightarrow> string \<Rightarrow> string \<Rightarrow> ViewAPI" where
  "newViewAPI orgId workspaceId viewId =
     \<lparr>viewUriPath = ''/restapi/v2/workspaces/'' @ workspaceId @ ''/views/'' @ viewId,
      viewHeader = setHeader ''ZANALYTICS-ORGID'' orgId []\<rparr>"

definition rename ::
  "env \<Rightarrow> state \<Rightarrow> ViewAPI \<Rightarrow> jsval \<Rightarrow> config \<Rightarrow> outcome \<times> state \<times> config" where
  "rename env st this viewName config =
     (let config' = assign ''viewName'' viewName config
      in case handleV2Request env st (viewUriPath this) ''PUT'' (Some config') (viewHeader this) False of
           (Resolved result, st') \<Rightarrow> (Resolved Undefined, st', config')
         | (Rejected e, st') \<Rightarrow> (Rejected e, st', config')
         | (Pending, st') \<Rightarrow> (Pending, st', config'))"


section \<open>The built-ins behind the CONFIG parameter\<close>

text \<open>
  sendV2Request writes the config with \<^verbatim>\<open>encodeURIComponent(JSON.stringify(config))\<close>.
  These functions belong to the runtime; they are given here as the ECMAScript standard
  defines them, on text held as UTF-8 bytes, together with the two functions that undo
  them. The printing and the reading of a number are left to the runtime and are
  arguments of the definitions.
\<close>

subsection \<open>decodeURIComponent\<close>

text \<open>encodeURIComponent is \<open>uriEncode\<close>, defined with the token request.\<close>

definition hexLower :: "nat \<Rightarrow> char" where
  "hexLower d = ''0123456789abcdef'' ! d"

definition hexValue :: "char \<Rightarrow> nat option" where
  "hexValue c =
     (let n = (of_char c :: nat)
      in if 48 \<le> n \<and> n \<le> 57 then Some (n - 48)
         else if 65 \<le> n \<and> n \<le> 70 then Some (n - 55)
         else if 97 \<le> n \<and> n \<le> 102 then Some (n - 87)
         else None)"

text \<open>Every \<^verbatim>\<open>%XX\<close> replaced by its byte; \<open>None\<close> (URIError) for a \<^verbatim>\<open>%\<close> that is not
  followed by two hexadecimal digits.\<close>

fun uriUnescape :: "string \<Rightarrow> string option" where
  "uriUnescape [] = Some []"
| "uriUnescape (c # cs) =
     (if c = CHR ''%'' then
        (case cs of
           h1 # h2 # rest \<Rightarrow>
             (case hexValue h1 of
                None \<Rightarrow> None
              | Some a \<Rightarrow>
                  (case hexValue h2 of
                     None \<Rightarrow> None
                   | Some b \<Rightarrow> map_option ((#) (char_of (a * 16 + b))) (uriUnescape rest)))
         | _ \<Rightarrow> None)
      else map_option ((#) c) (uriUnescape cs))"

text \<open>Well-formed UTF-8 (the Unicode standard's table of byte sequences).\<close>

definition between :: "nat \<Rightarrow> nat \<Rightarrow> char \<Rightarrow> bool" where
  "between lo hi c = (lo \<le> of_char c \<and> (of_char c :: nat) \<le> hi)"

fun utf8wf :: "string \<Rightarrow> bool" where
  "utf8wf [] = True"
| "utf8wf (b # bs) =
     (let n = (of_char b :: nat)
      in if n < 0x80 then utf8wf bs
         else if 0xC2 \<le> n \<and> n \<le> 0xDF then
           (case bs of c1 # r \<Rightarrow> between 0x80 0xBF c1 \<and> utf8wf r | _ \<Rightarrow> False)
         else if 0xE0 \<le> n \<and> n \<le> 0xEF then
           (case bs of
              c1 # c2 # r \<Rightarrow>
                between (if n = 0xE0 then 0xA0 else 0x80) (if n = 0xED then 0x9F else 0xBF) c1 \<and>
                between 0x80 0xBF c2 \<and> utf8wf r
            | _ \<Rightarrow> False)
         else if 0xF0 \<le> n \<and> n \<le> 0xF4 then
           (case bs of
              c1 # c2 # c3 # r \<Rightarrow>
                between (if n = 0xF0 then 0x90 else 0x80) (if n = 0xF4 then 0x8F else 0xBF) c1 \<and>
                between 0x80 0xBF c2 \<and> between 0x80 0xBF c3 \<and> utf8wf r
            | _ \<Rightarrow> False)
         else False)"

text \<open>decodeURIComponent: the escapes are undone, and the result has to be text.\<close>

definition uriDecode :: "string \<Rightarrow> string option" where
  "uriDecode s =
     (case uriUnescape s of
        None \<Rightarrow> None
      | Some t \<Rightarrow> if utf8wf t then Some t else None)"

subsection \<open>JSON.stringify\<close>

text \<open>QuoteJSONString: the text between double quotes, with \<^verbatim>\<open>"\<close>, \<^verbatim>\<open>\\<close> and the control
  characters escaped.\<close>

definition jsonEscape :: "char \<Rightarrow> string" where
  "jsonEscape c =
     (if c = CHR 0x22 then [CHR 0x5C, CHR 0x22]
      else if c = CHR 0x5C then [CHR 0x5C, CHR 0x5C]
      else if c = CHR 0x08 then [CHR 0x5C, CHR ''b'']
      else if c = CHR 0x0C then [CHR 0x5C, CHR ''f'']
      else if c = CHR 0x0A then [CHR 0x5C, CHR ''n'']
      else if c = CHR 0x0D then [CHR 0x5C, CHR ''r'']
      else if c = CHR 0x09 then [CHR 0x5C, CHR ''t'']
      else if (of_char c :: nat) < 0x20 then
        [CHR 0x5C, CHR ''u'', CHR ''0'', CHR ''0'', hexLower (of_char c div 16), hexLower (of_char c mod 16)]
      else [c])"

definition jsonQuote :: "string \<Rightarrow> string" where
  "jsonQuote s = CHR 0x22 # concat (map jsonEscape s) @ [CHR 0x22]"

text \<open>
  JSON.stringify without indentation; the first argument is the runtime's printing of a
  number. The result is \<open>None\<close> for \<^verbatim>\<open>undefined\<close>, which is left out of an object and
  written \<^verbatim>\<open>null\<close> in an array. An error object has no enumerable property.
\<close>

fun jsonText :: "(real \<Rightarrow> string) \<Rightarrow> jsval \<Rightarrow> string option"
  and jsonElements :: "(real \<Rightarrow> string) \<Rightarrow> jsval list \<Rightarrow> string list"
  and jsonMembers :: "(real \<Rightarrow> string) \<Rightarrow> (string \<times> jsval) list \<Rightarrow> string list" where
  "jsonText fmt Undefined = None"
| "jsonText fmt Null = Some ''null''"
| "jsonText fmt (Bool b) = Some (if b then ''true'' else ''false'')"
| "jsonText fmt (Num n) = Some (fmt n)"
| "jsonText fmt (Str s) = Some (jsonQuote s)"
| "jsonText fmt (Arr vs) = Some (''['' @ join (jsonElements fmt vs) '','' @ '']'')"
| "jsonText fmt (Obj kvs) = Some (''{'' @ join (jsonMembers fmt kvs) '','' @ ''}'')"
| "jsonText fmt (NativeError m) = Some ''{}''"
| "jsonElements fmt [] = []"
| "jsonElements fmt (v # vs) =
     (case jsonText fmt v of None \<Rightarrow> ''null'' | Some t \<Rightarrow> t) # jsonElements fmt vs"
| "jsonMembers fmt [] = []"
| "jsonMembers fmt ((k, v) # kvs) =
     (case jsonText fmt v of None \<Rightarrow> [] | Some t \<Rightarrow> [jsonQuote k @ '':'' @ t]) @ jsonMembers fmt kvs"

subsection \<open>JSON.parse\<close>

definition isWs :: "char \<Rightarrow> bool" where
  "isWs c = (c = CHR 0x20 \<or> c = CHR 0x09 \<or> c = CHR 0x0A \<or> c = CHR 0x0D)"

definition skipWs :: "string \<Rightarrow> string" where
  "skipWs s = dropWhile isWs s"

definition isDigit :: "char \<Rightarrow> bool" where
  "isDigit c = (48 \<le> (of_char c :: nat) \<and> (of_char c :: nat) \<le> 57)"

definition isNumChar :: "char \<Rightarrow> bool" where
  "isNumChar c = (isDigit c \<or> c = CHR ''-'' \<or> c = CHR ''+'' \<or> c = CHR ''.'' \<or> c = CHR ''e'' \<or> c = CHR ''E'')"

text \<open>The grammar of a JSON number: an optional minus, \<^verbatim>\<open>0\<close> or digits that do not start
  with \<^verbatim>\<open>0\<close>, an optional fraction, an optional exponent.\<close>

definition exponentOk :: "string \<Rightarrow> bool" where
  "exponentOk s =
     (case s of
        [] \<Rightarrow> True
      | c # r \<Rightarrow>
          (c = CHR ''e'' \<or> c = CHR ''E'') \<and>
          (let r' = (case r of [] \<Rightarrow> [] | d # r2 \<Rightarrow> if d = CHR ''+'' \<or> d = CHR ''-'' then r2 else r)
           in r' \<noteq> [] \<and> list_all isDigit r'))"

definition fractionOk :: "string \<Rightarrow> bool" where
  "fractionOk s =
     (case s of
        [] \<Rightarrow> True
      | c # r \<Rightarrow>
          if c = CHR ''.'' then takeWhile isDigit r \<noteq> [] \<and> exponentOk (dropWhile isDigit r)
          else exponentOk s)"

definition jsonNumber :: "string \<Rightarrow> bool" where
  "jsonNumber s =
     (let s1 = (case s of [] \<Rightarrow> [] | c # r \<Rightarrow> if c = CHR ''-'' then r else s);
          intPart = takeWhile isDigit s1
      in intPart \<noteq> [] \<and> (hd intPart = CHR ''0'' \<longrightarrow> length intPart = 1) \<and>
         fractionOk (dropWhile isDigit s1))"

text \<open>The second argument of the parser is the runtime's reading of a number token.\<close>

definition parseNumber :: "(string \<Rightarrow> real option) \<Rightarrow> string \<Rightarrow> (jsval \<times> string) option" where
  "parseNumber rd s =
     (let tok = takeWhile isNumChar s
      in if jsonNumber tok
         then (case rd tok of None \<Rightarrow> None | Some n \<Rightarrow> Some (Num n, dropWhile isNumChar s))
         else None)"

definition hex4 :: "char \<Rightarrow> char \<Rightarrow> char \<Rightarrow> char \<Rightarrow> nat option" where
  "hex4 a b c d =
     (case (hexValue a, hexValue b, hexValue c, hexValue d) of
        (Some w, Some x, Some y, Some z) \<Rightarrow> Some (((w * 16 + x) * 16 + y) * 16 + z)
      | _ \<Rightarrow> None)"

text \<open>A code point as UTF-8 bytes.\<close>

definition utf8Bytes :: "nat \<Rightarrow> string" where
  "utf8Bytes n =
     (if n < 0x80 then [char_of n]
      else if n < 0x800 then [char_of (0xC0 + n div 64), char_of (0x80 + n mod 64)]
      else if n < 0x10000 then
        [char_of (0xE0 + n div 4096), char_of (0x80 + n div 64 mod 64), char_of (0x80 + n mod 64)]
      else
        [char_of (0xF0 + n div 262144), char_of (0x80 + n div 4096 mod 64),
         char_of (0x80 + n div 64 mod 64), char_of (0x80 + n mod 64)])"

definition simpleEscape :: "char \<Rightarrow> char option" where
  "simpleEscape e =
     (if e = CHR 0x22 then Some (CHR 0x22)
      else if e = CHR 0x5C then Some (CHR 0x5C)
      else if e = CHR ''/'' then Some (CHR ''/'')
      else if e = CHR ''b'' then Some (CHR 0x08)
      else if e = CHR ''f'' then Some (CHR 0x0C)
      else if e = CHR ''n'' then Some (CHR 0x0A)
      else if e = CHR ''r'' then Some (CHR 0x0D)
      else if e = CHR ''t'' then Some (CHR 0x09)
      else None)"

text \<open>
  The characters of a string after its opening quote, up to the closing one. A
  \<^verbatim>\<open>\uXXXX\<close> escape gives the UTF-8 bytes of its code point, two escapes that are a
  surrogate pair those of the code point of the pair.
\<close>

fun parseChars :: "string \<Rightarrow> (string \<times> string) option" where
  "parseChars [] = None"
| "parseChars (c # cs) =
     (if c = CHR 0x22 then Some ([], cs)
      else if c = CHR 0x5C then
        (case cs of
           [] \<Rightarrow> None
         | e # rest \<Rightarrow>
             if e = CHR ''u'' then
               (case rest of
                  h1 # h2 # h3 # h4 # rest1 \<Rightarrow>
                    (case hex4 h1 h2 h3 h4 of
                       None \<Rightarrow> None
                     | Some n \<Rightarrow>
                         (case rest1 of
                            b # u # l1 # l2 # l3 # l4 # rest2 \<Rightarrow>
                              (case hex4 l1 l2 l3 l4 of
                                 Some m \<Rightarrow>
                                   if b = CHR 0x5C \<and> u = CHR ''u'' \<and> 0xD800 \<le> n \<and> n < 0xDC00 \<and>
                                      0xDC00 \<le> m \<and> m < 0xE000
                                   then map_option
                                          (\<lambda>(t, r). (utf8Bytes (0x10000 + (n - 0xD800) * 1024 + (m - 0xDC00)) @ t, r))
                                          (parseChars rest2)
                                   else map_option (\<lambda>(t, r). (utf8Bytes n @ t, r)) (parseChars rest1)
                               | None \<Rightarrow> map_option (\<lambda>(t, r). (utf8Bytes n @ t, r)) (parseChars rest1))
                          | _ \<Rightarrow> map_option (\<lambda>(t, r). (utf8Bytes n @ t, r)) (parseChars rest1)))
                | _ \<Rightarrow> None)
             else
               (case simpleEscape e of
                  None \<Rightarrow> None
                | Some ch \<Rightarrow> map_option (\<lambda>(t, r). (ch # t, r)) (parseChars rest)))
      else if (of_char c :: nat) < 0x20 then None
      else map_option (\<lambda>(t, r). (c # t, r)) (parseChars cs))"

declare parseChars.simps [simp del]

text \<open>
  The parser proper, with a bound on the number of nested and successive values that is
  at least the length of the text. In an object a repeated key keeps its first place and
  takes the last value.
\<close>

fun parseValue :: "(string \<Rightarrow> real option) \<Rightarrow> nat \<Rightarrow> string \<Rightarrow> (jsval \<times> string) option"
  and parseElements :: "(string \<Rightarrow> real option) \<Rightarrow> nat \<Rightarrow> string \<Rightarrow> (jsval list \<times> string) option"
  and parseMembers :: "(string \<Rightarrow> real option) \<Rightarrow> nat \<Rightarrow> string \<Rightarrow> ((string \<times> jsval) list \<times> string) option" where
  "parseValue rd 0 s = None"
| "parseValue rd (Suc f) s =
     (case skipWs s of
        [] \<Rightarrow> None
      | c # cs \<Rightarrow>
          if c = CHR ''{'' then
            (case skipWs cs of
               [] \<Rightarrow> None
             | d # r \<Rightarrow>
                 if d = CHR ''}'' then Some (Obj [], r)
                 else map_option (\<lambda>(kvs, r'). (Obj (foldl (\<lambda>obj (k, v). assign k v obj) [] kvs), r'))
                        (parseMembers rd f (d # r)))
          else if c = CHR ''['' then
            (case skipWs cs of
               [] \<Rightarrow> None
             | d # r \<Rightarrow>
                 if d = CHR '']'' then Some (Arr [], r)
                 else map_option (\<lambda>(vs, r'). (Arr vs, r')) (parseElements rd f (d # r)))
          else if c = CHR 0x22 then map_option (\<lambda>(t, r). (Str t, r)) (parseChars cs)
          else if startsWith (c # cs) ''true'' then Some (Bool True, drop 4 (c # cs))
          else if startsWith (c # cs) ''false'' then Some (Bool False, drop 5 (c # cs))
          else if startsWith (c # cs) ''null'' then Some (Null, drop 4 (c # cs))
          else parseNumber rd (c # cs))"
| "parseElements rd 0 s = None"
| "parseElements rd (Suc f) s =
     (case parseValue rd f s of
        None \<Rightarrow> None
      | Some (v, r) \<Rightarrow>
          (case skipWs r of
             [] \<Rightarrow> None
           | c # r' \<Rightarrow>
               if c = CHR '','' then map_option (\<lambda>(vs, r''). (v # vs, r'')) (parseElements rd f r')
               else if c = CHR '']'' then Some ([v], r')
               else None))"
| "parseMembers rd 0 s = None"
| "parseMembers rd (Suc f) s =
     (case skipWs s of
        [] \<Rightarrow> None
      | q # cs \<Rightarrow>
          if q \<noteq> CHR 0x22 then None
          else
            (case parseChars cs of
               None \<Rightarrow> None
             | Some (k, r0) \<Rightarrow>
                 (case skipWs r0 of
                    [] \<Rightarrow> None
                  | colon # r1 \<Rightarrow>
                      if colon \<noteq> CHR '':'' then None
                      else
                        (case parseValue rd f r1 of
                           None \<Rightarrow> None
                         | Some (v, r) \<Rightarrow>
                             (case skipWs r of
                                [] \<Rightarrow> None
                              | c # r' \<Rightarrow>
                                  if c = CHR '','' then
                                    map_option (\<lambda>(kvs, r''). ((k, v) # kvs, r'')) (parseMembers rd f r')
                                  else if c = CHR ''}'' then Some ([(k, v)], r')
                                  else None)))))"

declare parseValue.simps [simp del] parseElements.simps [simp del] parseMembers.simps [simp del]

definition jsonParse :: "(string \<Rightarrow> real option) \<Rightarrow> string \<Rightarrow> jsval option" where
  "jsonParse rd s =
     (case parseValue rd (2 * length s + 2) s of
        None \<Rightarrow> None
      | Some (v, rest) \<Rightarrow> if skipWs rest = [] then Some v else None)"

text \<open>
  What the round trip needs of a value: no \<^verbatim>\<open>undefined\<close> and no error object in it,
  numbers that the runtime prints as JSON numbers and reads back, strings that are text,
  objects whose keys are distinct.
\<close>

fun jsonSafe :: "(real \<Rightarrow> string) \<Rightarrow> (string \<Rightarrow> real option) \<Rightarrow> jsval \<Rightarrow> bool"
  and jsonSafeElements :: "(real \<Rightarrow> string) \<Rightarrow> (string \<Rightarrow> real option) \<Rightarrow> jsval list \<Rightarrow> bool"
  and jsonSafeMembers :: "(real \<Rightarrow> string) \<Rightarrow> (string \<Rightarrow> real option) \<Rightarrow> (string \<times> jsval) list \<Rightarrow> bool" where
  "jsonSafe fmt rd Undefined = False"
| "jsonSafe fmt rd Null = True"
| "jsonSafe fmt rd (Bool b) = True"
| "jsonSafe fmt rd (Num n) = (jsonNumber (fmt n) \<and> rd (fmt n) = Some n)"
| "jsonSafe fmt rd (Str s) = utf8wf s"
| "jsonSafe fmt rd (Arr vs) = jsonSafeElements fmt rd vs"
| "jsonSafe fmt rd (Obj kvs) = (distinct (map fst kvs) \<and> jsonSafeMembers fmt rd kvs)"
| "jsonSafe fmt rd (NativeError m) = False"
| "jsonSafeElements fmt rd [] = True"
| "jsonSafeElements fmt rd (v # vs) = (jsonSafe fmt rd v \<and> jsonSafeElements fmt rd vs)"
| "jsonSafeMembers fmt rd [] = True"
| "jsonSafeMembers fmt rd ((k, v) # kvs) = (utf8wf k \<and> jsonSafe fmt rd v \<and> jsonSafeMembers fmt rd kvs)"

text \<open>JSON.stringify as the caller sees it: \<^verbatim>\<open>undefined\<close> concatenated to a string.\<close>

definition stringify :: "(real \<Rightarrow> string) \<Rightarrow> jsval \<Rightarrow> string" where
  "stringify fmt v = (case jsonText fmt v of None \<Rightarrow> ''undefined'' | Some t \<Rightarrow> t)"

text \<open>The first character of a JSON value, the end of a number token, and text of the ASCII range.\<close>

definition valueStart :: "char \<Rightarrow> bool" where
  "valueStart c = (c = CHR ''{'' \<or> c = CHR ''['' \<or> c = CHR 0x22 \<or> c = CHR ''t'' \<or> c = CHR ''f'' \<or>
                   c = CHR ''n'' \<or> c = CHR ''-'' \<or> isDigit c)"

definition delimited :: "string \<Rightarrow> bool" where
  "delimited rest = (case rest of [] \<Rightarrow> True | c # r \<Rightarrow> \<not> isNumChar c)"

definition ascii :: "string \<Rightarrow> bool" where
  "ascii s = list_all (\<lambda>c. (of_char c :: nat) < 128) s"

section \<open>The specification's side\<close>



text \<open>
  The upstream side of the \<^verbatim>\<open>CONFIG\<close> convention as the specification describes it: the
  query is what follows the first \<^verbatim>\<open>?\<close>, it holds the single parameter \<^verbatim>\<open>CONFIG\<close>, and
  its value is decoded with decodeURIComponent and parsed as JSON.
\<close>

definition queryOf :: "string \<Rightarrow> string" where
  "queryOf path = drop 1 (dropWhile (\<lambda>c. c \<noteq> CHR ''?'') path)"

definition configValue :: "string \<Rightarrow> string option" where
  "configValue path =
     (let q = queryOf path
      in if startsWith q ''CONFIG='' \<and> CHR ''&'' \<notin> set q then Some (drop 7 q) else None)"

definition decodeConfig :: "(string \<Rightarrow> real option) \<Rightarrow> string \<Rightarrow> jsval option" where
  "decodeConfig rd path =
     (case configValue path of
        None \<Rightarrow> None
      | Some e \<Rightarrow> (case uriDecode e of None \<Rightarrow> None | Some t \<Rightarrow> jsonParse rd t))"

section \<open>Example environments\<close>

text \<open>
  A host that answers its \<open>k\<close>-th request with the \<open>k\<close>-th reply of a script, and
  drops the connection once the script is used up.
\<close>

definition scripted :: "(event \<Rightarrow> bool) \<Rightarrow> reply list \<Rightarrow> event list \<Rightarrow> http_request \<Rightarrow> reply" where
  "scripted mine script history req =
     (let k = length (filter mine history)
      in if k < length script then script ! k else NetError ''socket hang up'')"

text \<open>The values of \<^verbatim>\<open>JSON.parse\<close> on the bodies used in the examples.\<close>

definition exampleParse :: "string \<Rightarrow> jsval option" where
  \<open>exampleParse = map_of
     [(''{"data":{"errorCode":8535}}'', Obj [(''data'', Obj [(''errorCode'', Num 8535)])]),
      (''{"data":{"errorCode":7103}}'', Obj [(''data'', Obj [(''errorCode'', Num 7103)])]),
      (''{"data":{"views":[]}}'', Obj [(''data'', Obj [(''views'', Arr [])])]),
      (''{"data":{"batchKey":"k1","jobId":"j1"}}'',
         Obj [(''data'', Obj [(''batchKey'', Str ''k1''), (''jobId'', Str ''j1'')])]),
      (''{"data":{"batchKey":"k2","jobId":"j1"}}'',
         Obj [(''data'', Obj [(''batchKey'', Str ''k2''), (''jobId'', Str ''j1'')])]),
      (''{"access_token":"tok1"}'', Obj [(''access_token'', Str ''tok1'')]),
      (''{"access_token":"tok2"}'', Obj [(''access_token'', Str ''tok2'')]),
      (''{"error":"invalid_code"}'', Obj [(''error'', Str ''invalid_code'')]),
      (''{}'', Obj [])]\<close>

fun exampleToString :: "jsval \<Rightarrow> string" where
  "exampleToString (Str s) = s"
| "exampleToString Undefined = ''undefined''"
| "exampleToString Null = ''null''"
| "exampleToString (Bool b) = (if b then ''true'' else ''false'')"
| "exampleToString v = ''[object Object]''"

definition exampleUtf8 :: "string \<Rightarrow> string" where
  "exampleUtf8 bytes = (if bytes = [CHR 0xFF] then [CHR 0xEF, CHR 0xBF, CHR 0xBD] else bytes)"

definition exampleEnv :: "reply list \<Rightarrow> reply list \<Rightarrow> env" where
  "exampleEnv apiScript oauthScript =
     \<lparr>JSON_parse = exampleParse,
      JSON_stringify = (\<lambda>v. ''{}''),
      encodeURIComponent = (\<lambda>s. s),
      ToString = exampleToString,
      utf8 = exampleUtf8,
      EOL = [CHR 0x0A],
      writable = (\<lambda>p. True),
      analytics = scripted isApiRequest apiScript,
      accounts = scripted isOauthRequest oauthScript\<rparr>"

definition exampleClient :: "jsval \<Rightarrow> state" where
  "exampleClient token =
     \<lparr>clientId = ''1000.ID'', clientSecret = ''secret'', refreshToken = ''1000.refresh'',
      accessToken = token, trace = [], files = Map.empty\<rparr>"

definition exampleRelay :: "jsval \<Rightarrow> relay" where
  "exampleRelay token =
     \<lparr>zohoAccessToken = token, zohoRefreshToken = ''1000.refresh'',
      relayClientId = ''1000.ID'', relayClientSecret = ''secret'', wire = []\<rparr>"

text \<open>Scenarios: the replies of the analytics host, then those of the accounts host.\<close>

definition envRetry :: env where
  \<open>envRetry = exampleEnv
     [Reply 401 ''{"data":{"errorCode":8535}}'', Reply 401 ''{"data":{"errorCode":8535}}'']
     [Reply 200 ''{"access_token":"tok2"}'']\<close>

definition envRefused :: env where
  \<open>envRefused = exampleEnv
     [Reply 401 ''{"data":{"errorCode":8535}}'']
     [Reply 400 ''{"error":"invalid_code"}'']\<close>

definition envFresh :: env where
  \<open>envFresh = exampleEnv
     [Reply 200 ''{"data":{"views":[]}}'']
     [Reply 200 ''{"access_token":"tok1"}'']\<close>

definition envDenied :: env where
  \<open>envDenied = exampleEnv [Reply 400 ''{"data":{"errorCode":7103}}''] []\<close>

definition envNoContent :: env where
  \<open>envNoContent = exampleEnv [Reply 204 []] []\<close>

definition envEmptyGrant :: env where
  \<open>envEmptyGrant = exampleEnv [] [Reply 200 ''{}'']\<close>

definition clientTok0 :: state where
  "clientTok0 = exampleClient (Str ''tok0'')"

definition relayTok0 :: relay where
  "relayTok0 = exampleRelay (Str ''tok0'')"

definition orgsPath :: string where
  "orgsPath = ''/restapi/v2/orgs''"

definition dashboardUrl :: string where
  "dashboardUrl = ''https://analyticsapi.zoho.com/restapi/v2/dashboards/7''"

definition clientNoToken :: state where
  "clientNoToken = exampleClient Null"

definition relayNoToken :: relay where
  "relayNoToken = exampleRelay (Str [])"

definition salesOrg :: OrgAPI where
  "salesOrg = newOrgAPI ''20001''"

definition salesView :: ViewAPI where
  "salesView = newViewAPI ''20001'' ''123'' ''456''"

text \<open>An export answered with a body that is not UTF-8 text: the single byte FF, which
  the runtime's conversion to text replaces by U+FFFD (bytes EF BF BD).\<close>

definition envBinary :: env where
  "envBinary = exampleEnv [Reply 200 [CHR 0xFF]] []"

definition exportUri :: string where
  "exportUri = ''/restapi/v2/bulk/workspaces/123/exportjobs/9/data''"

definition importUri :: string where
  "importUri = ''/restapi/v2/bulk/workspaces/123/views/456/data/batch''"

text \<open>
  A runtime for the \<^verbatim>\<open>CONFIG\<close> parameter: whole numbers printed in decimal and read back,
  the built-ins as above.
\<close>

definition exampleFormat :: "real \<Rightarrow> string" where
  "exampleFormat n = (if n < 0 then ''-'' else []) @ decimal (nat \<lfloor>\<bar>n\<bar>\<rfloor>)"

definition exampleRead :: "string \<Rightarrow> real option" where
  "exampleRead s =
     (if s \<noteq> [] \<and> list_all isDigit s
      then Some (real (foldl (\<lambda>a c. 10 * a + (of_char c - 48)) 0 s))
      else None)"

definition envCodec :: env where
  "envCodec = (exampleEnv [] [])\<lparr>JSON_stringify := stringify exampleFormat, encodeURIComponent := uriEncode\<rparr>"

definition exampleConfig :: config where
  "exampleConfig =
     [(''workspaceName'', Str (''Caf'' @ [CHR 0xC3, CHR 0xA9] @ '' & bar'')),
      (''rows'', Num 25),
      (''columns'', Arr [Str ''a b'', Bool True, Null, Obj []])]"











section \<open>Lemmas\<close>

subsection \<open>Status codes in decimal\<close>

lemma decimal_digit: "n < 10 \<Longrightarrow> decimal n = [''0123456789'' ! n]"
  by (subst decimal.simps) simp

lemma decimal_step: "10 \<le> n \<Longrightarrow> decimal n = decimal (n div 10) @ [''0123456789'' ! (n mod 10)]"
  by (subst decimal.simps) simp

lemma decimal_three:
  assumes "100 \<le> n" "n < 1000"
  shows "decimal n = [''0123456789'' ! (n div 100), ''0123456789'' ! (n div 10 mod 10), ''0123456789'' ! (n mod 10)]"
proof -
  have a: "10 \<le> n" using assms by simp
  have b: "10 \<le> n div 10" using assms by simp
  have d: "n div 10 div 10 = n div 100" by (simp add: div_mult2_eq)
  have c: "n div 100 < 10" using assms by simp
  show ?thesis
    by (simp add: decimal_step[OF a] decimal_step[OF b] d decimal_digit[OF c])
qed

lemma below_ten:
  "(a::nat) < 10 \<Longrightarrow> a = 0 \<or> a = 1 \<or> a = 2 \<or> a = 3 \<or> a = 4 \<or> a = 5 \<or> a = 6 \<or> a = 7 \<or> a = 8 \<or> a = 9"
  by arith

lemma digit_val: "a < 10 \<Longrightarrow> of_char (''0123456789'' ! a) = 48 + a"
proof -
  assume "a < 10"
  then consider "a = 0" | "a = 1" | "a = 2" | "a = 3" | "a = 4" | "a = 5" | "a = 6" | "a = 7" | "a = 8" | "a = 9"
    using below_ten by blast
  then show ?thesis by cases simp_all
qed

lemma digit_inj:
  assumes "a < 10" "b < 10"
  shows "(''0123456789'' ! a = ''0123456789'' ! b) = (a = b)"
proof
  assume "''0123456789'' ! a = ''0123456789'' ! b"
  then have "(of_char (''0123456789'' ! a) :: nat) = of_char (''0123456789'' ! b)" by simp
  then show "a = b" using digit_val[OF assms(1)] digit_val[OF assms(2)] by simp
qed simp

lemma startsWith_2xx:
  assumes "100 \<le> n" "n < 1000"
  shows "startsWith (decimal n) ''2'' = (200 \<le> n \<and> n < 300)"
proof -
  have c: "n div 100 < 10" using assms by simp
  have "(''0123456789'' ! (n div 100) = CHR ''2'') = (n div 100 = 2)"
    using digit_inj[OF c, of 2] by simp
  moreover have "(n div 100 = 2) = (200 \<le> n \<and> n < 300)" by arith
  ultimately show ?thesis
    by (simp add: startsWith_def decimal_three[OF assms])
qed

lemma decimal_200:
  assumes "100 \<le> n" "n < 1000"
  shows "(decimal n = ''200'') = (n = 200)"
proof -
  have c: "n div 100 < 10" using assms by simp
  have c1: "n div 10 mod 10 < 10" by simp
  have c2: "n mod 10 < 10" by simp
  have "(decimal n = ''200'') = (n div 100 = 2 \<and> n div 10 mod 10 = 0 \<and> n mod 10 = 0)"
    using digit_inj[OF c, of 2] digit_inj[OF c1, of 0] digit_inj[OF c2, of 0]
    by (simp add: decimal_three[OF assms])
  also have "\<dots> = (n = 200)"
  proof
    assume h: "n div 100 = 2 \<and> n div 10 mod 10 = 0 \<and> n mod 10 = 0"
    have d: "n div 10 div 10 = n div 100" by (simp add: div_mult2_eq)
    have "n div 10 = 10 * (n div 10 div 10) + n div 10 mod 10" by simp
    then have a: "n div 10 = 20" using h d by simp
    have "n = 10 * (n div 10) + n mod 10" by simp
    then show "n = 200" using a h by simp
  qed simp
  finally show ?thesis .
qed

lemma v2End_other_2xx:
  assumes "200 \<le> statusCode" "statusCode < 300" "statusCode \<noteq> 200"
  shows "v2End env False statusCode data = Some [Resolve Undefined]"
proof -
  have r: "100 \<le> statusCode" "statusCode < 1000" using assms by simp_all
  show ?thesis
    using assms by (simp add: v2End_def Let_def startsWith_2xx[OF r] decimal_200[OF r])
qed

subsection \<open>What the client functions put on the wire\<close>



lemma emitted_append [simp]: "emitted xs (xs @ ys) = ys"
  by (simp add: emitted_def)

lemma emitted_append2 [simp]: "emitted xs ((xs @ ys) @ zs) = ys @ zs"
  by (simp add: emitted_def)

lemma emitted_self [simp]: "emitted xs xs = []"
  by (simp add: emitted_def)

lemma trace_logEvent [simp]: "trace (logEvent e st) = trace st @ [e]"
  by (simp add: logEvent_def)

lemma accessToken_logEvent [simp]: "accessToken (logEvent e st) = accessToken st"
  by (simp add: logEvent_def)



lemma v2End_failed:
  assumes "\<not> startsWith (decimal statusCode) ''2''"
    and "JSON_parse env data = Some respJSON"
    and "getProp respJSON ''data'' = Some d"
  shows "v2End env isExportReq statusCode data = Some [Reject d, Resolve Undefined]"
  using assms by (simp add: v2End_def Let_def)





subsection \<open>What the relay puts on the wire\<close>

lemma wire_relayLog [simp]: "wire (relayLog e st) = wire st @ [e]"
  by (simp add: relayLog_def)

lemma zohoAccessToken_relayLog [simp]: "zohoAccessToken (relayLog e st) = zohoAccessToken st"
  by (simp add: relayLog_def)



lemma relayAnswer_401 [simp]: "relayAnswer env 401 bytes = fetchFailed"
  by (simp add: relayAnswer_def)





lemma ensureZohoAccessToken_cached:
  assumes "ensureZohoAccessToken env rs = (None, rs1)"
  shows "truthy (zohoAccessToken rs1)"
proof (cases "truthy (zohoAccessToken rs)")
  case True
  then show ?thesis using assms by (simp add: ensureZohoAccessToken_def)
next
  case False
  then show ?thesis using assms
    by (auto simp: ensureZohoAccessToken_def refreshZohoToken_def Let_def
             split: prod.splits result.splits reply.splits option.splits if_splits)
qed









subsection \<open>Config objects\<close>

lemma map_of_assign_same: "map_of (assign k v kvs) k = Some v"
  by (induction kvs) auto

lemma map_of_assign_other: "k' \<noteq> k \<Longrightarrow> map_of (assign k v kvs) k' = map_of kvs k'"
  by (induction kvs) auto

lemma third_createWorkspace:
  "snd (snd (createWorkspace env st this workspaceName config)) = assign ''workspaceName'' workspaceName config"
  by (simp add: createWorkspace_def Let_def split: prod.splits outcome.splits option.splits)

lemma third_rename:
  "snd (snd (rename env st this viewName config)) = assign ''viewName'' viewName config"
  by (simp add: rename_def Let_def split: prod.splits outcome.splits option.splits)

lemma third_getAdmins:
  "snd (snd (getAdmins env st this config)) = config"
  by (simp add: getAdmins_def Let_def split: prod.splits outcome.splits option.splits)

subsection \<open>Export\<close>

lemma startsWith_2xx_any:
  assumes "200 \<le> n" "n < 300"
  shows "startsWith (decimal n) ''2''"
proof -
  have r: "100 \<le> n" "n < 1000" using assms by simp_all
  show ?thesis using assms by (simp add: startsWith_2xx[OF r])
qed

lemma sendV2Request_export:
  assumes "analytics env (trace st) (v2Request env st uriPath reqMethod config header) = Reply statusCode bytes"
    and "200 \<le> statusCode" "statusCode < 300"
  shows "sendV2Request env st uriPath reqMethod config header True =
           (Resolved (Str (utf8 env bytes)),
            logEvent (ApiRequest (v2Request env st uriPath reqMethod config header)) st)"
  using assms(1) startsWith_2xx_any[OF assms(2,3)]
  by (simp add: sendV2Request_def v2End_def Let_def)

lemma sendExportRequest_200:
  assumes "analytics env (trace st) (exportRequest env st uriPath config header) = Reply 200 bytes"
    and "writable env filePath"
  shows "fst (sendExportRequest env st uriPath filePath config header) = Resolved Undefined \<and>
         files (snd (sendExportRequest env st uriPath filePath config header)) filePath = Some bytes \<and>
         emitted (trace st) (trace (snd (sendExportRequest env st uriPath filePath config header))) =
           [ApiRequest (exportRequest env st uriPath config header), FileWritten filePath bytes]"
  using assms by (simp add: sendExportRequest_def Let_def logEvent_def emitted_def)

subsection \<open>The batch loop\<close>




text \<open>With a line end of one character, content that ends with it has one more piece,
  the empty one.\<close>

lemma splitFrom_final_sep:
  "splitFrom [c] acc (s @ [c]) = splitFrom [c] acc s @ [[]]"
  by (induction s arbitrary: acc) simp_all

lemma split_final_EOL:
  "split (s @ [c]) [c] = split s [c] @ [[]]"
  by (simp add: split_def splitFrom_final_sep)






subsection \<open>Unfolding the examples\<close>

lemmas example_defs =
  exampleEnv_def exampleParse_def exampleUtf8_def scripted_def exampleClient_def exampleRelay_def
  envRetry_def envRefused_def envFresh_def envDenied_def envNoContent_def envEmptyGrant_def
  clientTok0_def relayTok0_def orgsPath_def dashboardUrl_def clientNoToken_def relayNoToken_def
  salesOrg_def salesView_def envBinary_def exportUri_def
  importUri_def

lemmas client_defs =
  getOauth_def oauthEnd_def oauthRequest_def sendV2Request_def v2Request_def v2Path_def v2End_def
  handleV2Request_def ensureAccessToken_def logEvent_def emitted_def startsWith_def
  sendExportRequest_def exportRequest_def exportPath_def
  analyticsURI_def accountsURI_def userAgent_def clientVersion_def





subsection \<open>The CONFIG parameter\<close>

lemma below_sixteen:
  "(d::nat) < 16 \<Longrightarrow> d = 0 \<or> d = 1 \<or> d = 2 \<or> d = 3 \<or> d = 4 \<or> d = 5 \<or> d = 6 \<or> d = 7 \<or>
     d = 8 \<or> d = 9 \<or> d = 10 \<or> d = 11 \<or> d = 12 \<or> d = 13 \<or> d = 14 \<or> d = 15"
  by arith

lemma hexValue_hexUpper: "d < 16 \<Longrightarrow> hexValue (hexUpper d) = Some d"
proof -
  assume "d < 16"
  then consider "d = 0" | "d = 1" | "d = 2" | "d = 3" | "d = 4" | "d = 5" | "d = 6" | "d = 7"
    | "d = 8" | "d = 9" | "d = 10" | "d = 11" | "d = 12" | "d = 13" | "d = 14" | "d = 15"
    using below_sixteen by blast
  then show ?thesis by cases (simp_all add: hexValue_def hexUpper_def)
qed

lemma hexValue_hexLower: "d < 16 \<Longrightarrow> hexValue (hexLower d) = Some d"
proof -
  assume "d < 16"
  then consider "d = 0" | "d = 1" | "d = 2" | "d = 3" | "d = 4" | "d = 5" | "d = 6" | "d = 7"
    | "d = 8" | "d = 9" | "d = 10" | "d = 11" | "d = 12" | "d = 13" | "d = 14" | "d = 15"
    using below_sixteen by blast
  then show ?thesis by cases (simp_all add: hexValue_def hexLower_def)
qed

lemma unreserved_not_percent: "uriUnreserved c \<Longrightarrow> c \<noteq> CHR ''%''"
  by (auto simp: uriUnreserved_def Let_def)

lemma of_char_below: "(of_char c :: nat) < 256"
  by (metis of_char_mod_256 mod_less_divisor zero_less_numeral)

lemma byte_halves: "char_of ((of_char c :: nat) div 16 * 16 + of_char c mod 16) = c"
  by simp

lemma unescape_encode: "uriUnescape (uriEncode s) = Some s"
proof (induction s)
  case Nil
  then show ?case by simp
next
  case (Cons c s)
  have "(of_char c :: nat) < 16 * 16" using of_char_below[of c] by simp
  then have hi: "(of_char c :: nat) div 16 < 16" by (rule less_mult_imp_div_less)
  have lo: "(of_char c :: nat) mod 16 < 16" by simp
  show ?case
    using Cons unreserved_not_percent[of c]
    by (simp add: hexValue_hexUpper[OF hi] hexValue_hexUpper[OF lo] byte_halves)
qed

lemma decode_encode: "utf8wf s \<Longrightarrow> uriDecode (uriEncode s) = Some s"
  by (simp add: uriDecode_def unescape_encode)

lemma hex4_control:
  assumes "(n::nat) < 32"
  shows "hex4 (CHR ''0'') (CHR ''0'') (hexLower (n div 16)) (hexLower (n mod 16)) = Some n"
proof -
  have hi: "n div 16 < 16" using assms by simp
  have lo: "n mod 16 < 16" by simp
  have z: "hexValue (CHR ''0'') = Some 0" by (simp add: hexValue_def)
  show ?thesis
    by (simp add: hex4_def z hexValue_hexLower[OF hi] hexValue_hexLower[OF lo])
qed

lemma low_pair:
  assumes "\<not> (55296::nat) \<le> n"
  shows "(case rest1 of
            b # u # l1 # l2 # l3 # l4 # rest2 \<Rightarrow>
              (case hex4 l1 l2 l3 l4 of
                 Some m \<Rightarrow>
                   if b = CHR 0x5C \<and> u = CHR ''u'' \<and> 0xD800 \<le> n \<and> n < 0xDC00 \<and>
                      0xDC00 \<le> m \<and> m < 0xE000
                   then A m rest2
                   else X
               | None \<Rightarrow> X)
          | _ \<Rightarrow> X) = X"
  using assms by (simp split: list.splits option.splits)

lemma parseChars_control:
  assumes c: "(of_char c :: nat) < 32"
  shows "parseChars (CHR 0x5C # CHR ''u'' # CHR ''0'' # CHR ''0'' # hexLower (of_char c div 16) #
           hexLower (of_char c mod 16) # rest1) =
         map_option (\<lambda>(t, r). (c # t, r)) (parseChars rest1)"
proof -
  have h: "hex4 (CHR ''0'') (CHR ''0'') (hexLower (of_char c div 16)) (hexLower (of_char c mod 16)) = Some (of_char c)"
    using hex4_control[OF c] .
  have u: "utf8Bytes (of_char c) = [c]" using c by (simp add: utf8Bytes_def)
  have small: "\<not> (55296::nat) \<le> of_char c" using c by simp
  show ?thesis
    apply (subst parseChars.simps)
    apply (simp only: list.case if_True refl h option.case low_pair[OF small] u)
    apply simp
    done
qed

lemma parseChars_simple:
  assumes "simpleEscape e = Some ch" "e \<noteq> CHR ''u''"
  shows "parseChars (CHR 0x5C # e # rest1) = map_option (\<lambda>(t, r). (ch # t, r)) (parseChars rest1)"
  apply (subst parseChars.simps)
  using assms apply (simp only: list.case if_True if_False refl option.case)
  apply simp
  done

lemma parseChars_plain:
  assumes "c \<noteq> CHR 0x22" "c \<noteq> CHR 0x5C" "\<not> (of_char c :: nat) < 32"
  shows "parseChars (c # rest1) = map_option (\<lambda>(t, r). (c # t, r)) (parseChars rest1)"
  apply (subst parseChars.simps)
  using assms apply (simp only: if_False)
  done

lemma parseChars_end: "parseChars (CHR 0x22 # rest) = Some ([], rest)"
  by (subst parseChars.simps) (simp only: if_True refl)

lemma parseChars_escape:
  assumes "parseChars rest1 = Some (t, r)"
  shows "parseChars (jsonEscape c @ rest1) = Some (c # t, r)"
proof (cases "c = CHR 0x22 \<or> c = CHR 0x5C \<or> c = CHR 0x08 \<or> c = CHR 0x0C \<or> c = CHR 0x0A \<or> c = CHR 0x0D \<or> c = CHR 0x09")
  case True
  then consider "c = CHR 0x22" | "c = CHR 0x5C" | "c = CHR 0x08" | "c = CHR 0x0C" | "c = CHR 0x0A"
    | "c = CHR 0x0D" | "c = CHR 0x09" by blast
  then show ?thesis
  proof cases
    case 1
    have "simpleEscape (CHR 0x22) = Some (CHR 0x22)" by (simp add: simpleEscape_def)
    from parseChars_simple[OF this, of rest1] show ?thesis using 1 assms by (simp add: jsonEscape_def)
  next
    case 2
    have "simpleEscape (CHR 0x5C) = Some (CHR 0x5C)" by (simp add: simpleEscape_def)
    from parseChars_simple[OF this, of rest1] show ?thesis using 2 assms by (simp add: jsonEscape_def)
  next
    case 3
    have "simpleEscape (CHR ''b'') = Some (CHR 0x08)" by (simp add: simpleEscape_def)
    from parseChars_simple[OF this, of rest1] show ?thesis using 3 assms by (simp add: jsonEscape_def)
  next
    case 4
    have "simpleEscape (CHR ''f'') = Some (CHR 0x0C)" by (simp add: simpleEscape_def)
    from parseChars_simple[OF this, of rest1] show ?thesis using 4 assms by (simp add: jsonEscape_def)
  next
    case 5
    have "simpleEscape (CHR ''n'') = Some (CHR 0x0A)" by (simp add: simpleEscape_def)
    from parseChars_simple[OF this, of rest1] show ?thesis using 5 assms by (simp add: jsonEscape_def)
  next
    case 6
    have "simpleEscape (CHR ''r'') = Some (CHR 0x0D)" by (simp add: simpleEscape_def)
    from parseChars_simple[OF this, of rest1] show ?thesis using 6 assms by (simp add: jsonEscape_def)
  next
    case 7
    have "simpleEscape (CHR ''t'') = Some (CHR 0x09)" by (simp add: simpleEscape_def)
    from parseChars_simple[OF this, of rest1] show ?thesis using 7 assms by (simp add: jsonEscape_def)
  qed
next
  case False
  show ?thesis
  proof (cases "(of_char c :: nat) < 32")
    case True
    have e: "jsonEscape c = [CHR 0x5C, CHR ''u'', CHR ''0'', CHR ''0'', hexLower (of_char c div 16), hexLower (of_char c mod 16)]"
      using False True by (simp add: jsonEscape_def)
    show ?thesis using parseChars_control[OF True, of rest1] assms by (simp add: e)
  next
    case ge: False
    have e: "jsonEscape c = [c]" using False ge by (simp add: jsonEscape_def)
    show ?thesis using parseChars_plain[of c rest1] False ge assms by (simp add: e)
  qed
qed

lemma parseChars_quoted:
  "parseChars (concat (map jsonEscape s) @ CHR 0x22 # rest) = Some (s, rest)"
proof (induction s)
  case Nil
  then show ?case by (simp add: parseChars_end)
next
  case (Cons c s)
  show ?case
    using parseChars_escape[OF Cons, of c] by simp
qed

lemma jsonQuote_parse:
  "parseChars (tl (jsonQuote s) @ rest) = Some (s, rest)"
  using parseChars_quoted[of s rest] by (simp add: jsonQuote_def)

lemma valueStart_not_ws: "valueStart c \<Longrightarrow> \<not> isWs c"
  by (auto simp: valueStart_def isWs_def isDigit_def)

lemma valueStart_not_close: "valueStart c \<Longrightarrow> c \<noteq> CHR '']'' \<and> c \<noteq> CHR ''}''"
  by (auto simp: valueStart_def isDigit_def)

lemma skipWs_start: "valueStart c \<Longrightarrow> skipWs (c # cs) = c # cs"
  by (simp add: skipWs_def valueStart_not_ws)

lemma skipWs_punct [simp]:
  "skipWs (CHR '','' # r) = CHR '','' # r"
  "skipWs (CHR '']'' # r) = CHR '']'' # r"
  "skipWs (CHR ''}'' # r) = CHR ''}'' # r"
  "skipWs (CHR '':'' # r) = CHR '':'' # r"
  by (simp_all add: skipWs_def isWs_def)

lemma isDigit_numChar: "isDigit c \<Longrightarrow> isNumChar c"
  by (simp add: isNumChar_def)

lemma digits_numChars: "list_all isDigit s \<Longrightarrow> list_all isNumChar s"
  by (induction s) (simp_all add: isDigit_numChar)

lemma exponent_numChars: "exponentOk s \<Longrightarrow> list_all isNumChar s"
proof (cases s)
  case Nil
  then show ?thesis by simp
next
  case (Cons c r)
  assume ok: "exponentOk s"
  then have c: "isNumChar c" using Cons by (auto simp: exponentOk_def isNumChar_def)
  have "list_all isNumChar r"
  proof (cases r)
    case Nil
    then show ?thesis by simp
  next
    case inner: (Cons d r2)
    show ?thesis
    proof (cases "d = CHR ''+'' \<or> d = CHR ''-''")
      case True
      then have "list_all isDigit r2" using ok Cons inner by (auto simp: exponentOk_def Let_def)
      then show ?thesis using True inner by (auto simp: digits_numChars isNumChar_def)
    next
      case False
      then have "list_all isDigit r" using ok Cons inner by (auto simp: exponentOk_def Let_def)
      then show ?thesis by (simp add: digits_numChars)
    qed
  qed
  then show ?thesis using c Cons by simp
qed

lemma takeWhile_digits: "list_all isNumChar (takeWhile isDigit s)"
  by (induction s) (simp_all add: isDigit_numChar)

lemma split_digits:
  assumes "list_all isNumChar (dropWhile isDigit s)"
  shows "list_all isNumChar s"
proof -
  have "list_all isNumChar (takeWhile isDigit s @ dropWhile isDigit s)"
    using assms takeWhile_digits[of s] by (simp only: list_all_append simp_thms)
  then show ?thesis by simp
qed

lemma fraction_numChars: "fractionOk s \<Longrightarrow> list_all isNumChar s"
proof (cases s)
  case Nil
  then show ?thesis by simp
next
  case (Cons c r)
  assume ok: "fractionOk s"
  show ?thesis
  proof (cases "c = CHR ''.''")
    case True
    then have "exponentOk (dropWhile isDigit r)" using ok Cons by (simp add: fractionOk_def)
    then have "list_all isNumChar r" using exponent_numChars split_digits by blast
    then show ?thesis using True Cons by (simp add: isNumChar_def)
  next
    case False
    then have "exponentOk s" using ok Cons by (simp add: fractionOk_def)
    then show ?thesis by (rule exponent_numChars)
  qed
qed

lemma number_numChars:
  assumes "jsonNumber s"
  shows "list_all isNumChar s"
proof (cases s)
  case Nil
  then show ?thesis by simp
next
  case (Cons c r)
  show ?thesis
  proof (cases "c = CHR ''-''")
    case True
    then have "fractionOk (dropWhile isDigit r)" using assms Cons by (simp add: jsonNumber_def Let_def)
    then have "list_all isNumChar r" using fraction_numChars split_digits by blast
    then show ?thesis using True Cons by (simp add: isNumChar_def)
  next
    case False
    then have "fractionOk (dropWhile isDigit s)" using assms Cons by (simp add: jsonNumber_def Let_def)
    then show ?thesis using fraction_numChars split_digits by blast
  qed
qed

lemma number_start:
  assumes "jsonNumber s"
  shows "\<exists>c cs. s = c # cs \<and> (c = CHR ''-'' \<or> isDigit c)"
proof (cases s)
  case Nil
  then show ?thesis using assms by (simp add: jsonNumber_def)
next
  case (Cons c r)
  show ?thesis
  proof (cases "c = CHR ''-''")
    case True
    then show ?thesis using Cons by simp
  next
    case False
    then have "takeWhile isDigit (c # r) \<noteq> []" using assms Cons by (simp add: jsonNumber_def Let_def)
    then have "isDigit c" by (simp split: if_splits)
    then show ?thesis using Cons by simp
  qed
qed

lemma token_of_number:
  assumes "list_all isNumChar t" "delimited rest"
  shows "takeWhile isNumChar (t @ rest) = t" "dropWhile isNumChar (t @ rest) = rest"
proof -
  have all: "\<And>x. x \<in> set t \<Longrightarrow> isNumChar x" using assms(1) by (simp add: list_all_iff)
  have "takeWhile isNumChar rest = []" using assms(2) by (cases rest) (simp_all add: delimited_def)
  then show "takeWhile isNumChar (t @ rest) = t" using all by (simp add: takeWhile_append2)
  have "dropWhile isNumChar rest = rest" using assms(2) by (cases rest) (simp_all add: delimited_def)
  then show "dropWhile isNumChar (t @ rest) = rest" using all by (simp add: dropWhile_append2)
qed

lemma parseNumber_token:
  assumes "jsonNumber t" "rd t = Some n" "delimited rest"
  shows "parseNumber rd (t @ rest) = Some (Num n, rest)"
  using assms token_of_number[OF number_numChars[OF assms(1)] assms(3)]
  by (simp add: parseNumber_def)

lemma parseValue_null: "parseValue rd (Suc f) (''null'' @ rest) = Some (Null, rest)"
  by (simp add: parseValue.simps skipWs_def isWs_def startsWith_def)

lemma parseValue_true: "parseValue rd (Suc f) (''true'' @ rest) = Some (Bool True, rest)"
  by (simp add: parseValue.simps skipWs_def isWs_def startsWith_def)

lemma parseValue_false: "parseValue rd (Suc f) (''false'' @ rest) = Some (Bool False, rest)"
  by (simp add: parseValue.simps skipWs_def isWs_def startsWith_def)

lemma parseValue_str:
  "parseValue rd (Suc f) (CHR 0x22 # cs) = map_option (\<lambda>(t, r). (Str t, r)) (parseChars cs)"
  by (simp add: parseValue.simps skipWs_def isWs_def)

lemma parseValue_num:
  assumes "c = CHR ''-'' \<or> isDigit c"
  shows "parseValue rd (Suc f) (c # cs) = parseNumber rd (c # cs)"
proof -
  have ws: "skipWs (c # cs) = c # cs" using assms by (auto simp: skipWs_def isWs_def isDigit_def)
  have ne: "c \<noteq> CHR ''{''" "c \<noteq> CHR ''[''" "c \<noteq> CHR 0x22" "c \<noteq> CHR ''t''" "c \<noteq> CHR ''f''" "c \<noteq> CHR ''n''"
    using assms by (auto simp: isDigit_def)
  show ?thesis using ne by (simp add: parseValue.simps ws startsWith_def)
qed

lemma parseValue_empty_arr: "parseValue rd (Suc f) (CHR ''['' # CHR '']'' # rest) = Some (Arr [], rest)"
  by (simp add: parseValue.simps skipWs_def isWs_def)

lemma parseValue_empty_obj: "parseValue rd (Suc f) (CHR ''{'' # CHR ''}'' # rest) = Some (Obj [], rest)"
  by (simp add: parseValue.simps skipWs_def isWs_def)

lemma parseValue_arr:
  assumes "valueStart d"
  shows "parseValue rd (Suc f) (CHR ''['' # d # r) =
         map_option (\<lambda>(vs, r'). (Arr vs, r')) (parseElements rd f (d # r))"
proof -
  have a: "skipWs (CHR ''['' # d # r) = CHR ''['' # d # r" by (simp add: skipWs_def isWs_def)
  show ?thesis
    using valueStart_not_close[OF assms] by (simp add: parseValue.simps a skipWs_start[OF assms])
qed

lemma parseValue_obj:
  assumes "valueStart d"
  shows "parseValue rd (Suc f) (CHR ''{'' # d # r) =
         map_option (\<lambda>(kvs, r'). (Obj (foldl (\<lambda>obj (k, v). assign k v obj) [] kvs), r'))
           (parseMembers rd f (d # r))"
proof -
  have a: "skipWs (CHR ''{'' # d # r) = CHR ''{'' # d # r" by (simp add: skipWs_def isWs_def)
  show ?thesis
    using valueStart_not_close[OF assms] by (simp add: parseValue.simps a skipWs_start[OF assms])
qed

lemma parseElements_step:
  assumes "parseValue rd f s = Some (v, CHR '','' # r)"
  shows "parseElements rd (Suc f) s = map_option (\<lambda>(vs, r''). (v # vs, r'')) (parseElements rd f r)"
  using assms by (simp add: parseElements.simps)

lemma parseElements_last:
  assumes "parseValue rd f s = Some (v, CHR '']'' # r)"
  shows "parseElements rd (Suc f) s = Some ([v], r)"
  using assms by (simp add: parseElements.simps)

lemma parseMembers_step:
  assumes "parseChars cs = Some (k, CHR '':'' # r1)" "parseValue rd f r1 = Some (v, CHR '','' # r)"
  shows "parseMembers rd (Suc f) (CHR 0x22 # cs) =
         map_option (\<lambda>(kvs, r''). ((k, v) # kvs, r'')) (parseMembers rd f r)"
proof -
  have a: "skipWs (CHR 0x22 # cs) = CHR 0x22 # cs" by (simp add: skipWs_def isWs_def)
  show ?thesis using assms by (simp add: parseMembers.simps a)
qed

lemma parseMembers_last:
  assumes "parseChars cs = Some (k, CHR '':'' # r1)" "parseValue rd f r1 = Some (v, CHR ''}'' # r)"
  shows "parseMembers rd (Suc f) (CHR 0x22 # cs) = Some ([(k, v)], r)"
proof -
  have a: "skipWs (CHR 0x22 # cs) = CHR 0x22 # cs" by (simp add: skipWs_def isWs_def)
  show ?thesis using assms by (simp add: parseMembers.simps a)
qed

lemma delimited_punct [simp]:
  "delimited []" "delimited (CHR '','' # r)" "delimited (CHR '']'' # r)" "delimited (CHR ''}'' # r)"
  by (simp_all add: delimited_def isNumChar_def isDigit_def)

lemma text_start:
  assumes "jsonSafe fmt rd v"
  shows "\<exists>c cs. jsonText fmt v = Some (c # cs) \<and> valueStart c"
proof (cases v)
  case (Num n)
  then have "jsonNumber (fmt n)" using assms by simp
  from number_start[OF this] show ?thesis using Num by (auto simp: valueStart_def)
qed (use assms in \<open>auto simp: valueStart_def jsonQuote_def\<close>)

lemma join_start: "\<exists>r'. join ((d # r) # xs) sep = d # r'"
  by (cases xs) simp_all

lemma join_cons: "xs \<noteq> [] \<Longrightarrow> join (x # xs) sep = x @ sep @ join xs sep"
  by (cases xs) simp_all

lemma elements_nonempty: "vs \<noteq> [] \<Longrightarrow> jsonElements fmt vs \<noteq> []"
  by (cases vs) simp_all

lemma elements_start:
  assumes "jsonSafeElements fmt rd vs" "vs \<noteq> []"
  shows "\<exists>d r. join (jsonElements fmt vs) sep = d # r \<and> valueStart d"
proof -
  obtain v vs' where vs: "vs = v # vs'" using assms(2) by (cases vs) auto
  then have "jsonSafe fmt rd v" using assms(1) by simp
  from text_start[OF this] obtain c cs where t: "jsonText fmt v = Some (c # cs)" "valueStart c" by blast
  obtain r' where "join ((c # cs) # jsonElements fmt vs') sep = c # r'" using join_start by blast
  then show ?thesis using t vs by simp
qed

lemma members_nonempty:
  assumes "jsonSafeMembers fmt rd kvs" "kvs \<noteq> []"
  shows "jsonMembers fmt kvs \<noteq> []"
proof -
  obtain k v kvs' where kvs: "kvs = (k, v) # kvs'" using assms(2) by (cases kvs) auto
  then have "jsonSafe fmt rd v" using assms(1) by simp
  from text_start[OF this] obtain t where "jsonText fmt v = Some t" by blast
  then show ?thesis using kvs by simp
qed

lemma members_start:
  assumes "jsonSafeMembers fmt rd kvs" "kvs \<noteq> []"
  shows "\<exists>r. join (jsonMembers fmt kvs) sep = CHR 0x22 # r \<and> valueStart (CHR 0x22)"
proof -
  obtain k v kvs' where kvs: "kvs = (k, v) # kvs'" using assms(2) by (cases kvs) auto
  then have "jsonSafe fmt rd v" using assms(1) by simp
  from text_start[OF this] obtain t where t: "jsonText fmt v = Some t" by blast
  obtain r' where "join ((CHR 0x22 # (concat (map jsonEscape k) @ [CHR 0x22] @ '':'' @ t)) # jsonMembers fmt kvs') sep = CHR 0x22 # r'"
    using join_start by blast
  then show ?thesis using t kvs by (simp add: jsonQuote_def valueStart_def)
qed

lemma assign_fresh: "k \<notin> fst ` set acc \<Longrightarrow> assign k v acc = acc @ [(k, v)]"
  by (induction acc) auto

lemma foldl_assign:
  "distinct (map fst (acc @ kvs)) \<Longrightarrow> foldl (\<lambda>obj (k, v). assign k v obj) acc kvs = acc @ kvs"
proof (induction kvs arbitrary: acc)
  case Nil
  then show ?case by simp
next
  case (Cons kv kvs)
  obtain k v where kv: "kv = (k, v)" by (cases kv)
  have fresh: "k \<notin> fst ` set acc" using Cons.prems kv by auto
  have "distinct (map fst ((acc @ [(k, v)]) @ kvs))" using Cons.prems kv by simp
  from Cons.IH[OF this] show ?case using kv by (simp add: assign_fresh[OF fresh])
qed

lemma foldl_assign_distinct:
  "distinct (map fst kvs) \<Longrightarrow> foldl (\<lambda>obj (k, v). assign k v obj) [] kvs = kvs"
  using foldl_assign[of "[]" kvs] by simp

lemma parse_text:
  "jsonSafe fmt rd v \<Longrightarrow>
     (\<forall>t rest fuel. jsonText fmt v = Some t \<longrightarrow> delimited rest \<longrightarrow> 2 * length t \<le> fuel \<longrightarrow>
        parseValue rd fuel (t @ rest) = Some (v, rest))"
  "jsonSafeElements fmt rd vs \<Longrightarrow>
     (\<forall>rest fuel. vs \<noteq> [] \<longrightarrow> 2 * length (join (jsonElements fmt vs) '','') + 1 \<le> fuel \<longrightarrow>
        parseElements rd fuel (join (jsonElements fmt vs) '','' @ CHR '']'' # rest) = Some (vs, rest))"
  "jsonSafeMembers fmt rd kvs \<Longrightarrow>
     (\<forall>rest fuel. kvs \<noteq> [] \<longrightarrow> 2 * length (join (jsonMembers fmt kvs) '','') + 1 \<le> fuel \<longrightarrow>
        parseMembers rd fuel (join (jsonMembers fmt kvs) '','' @ CHR ''}'' # rest) = Some (kvs, rest))"
proof (induction fmt rd v and fmt rd vs and fmt rd kvs rule: jsonSafe_jsonSafeElements_jsonSafeMembers.induct)
  case (1 fmt rd)
  then show ?case by simp
next
  case (2 fmt rd)
  show ?case
  proof (intro allI impI)
    fix t rest and fuel :: nat
    assume "jsonText fmt Null = Some t" "2 * length t \<le> fuel"
    then obtain f where "fuel = Suc f" "t = ''null''" by (cases fuel) auto
    then show "parseValue rd fuel (t @ rest) = Some (Null, rest)"
      using parseValue_null[of rd f rest] by simp
  qed
next
  case (3 fmt rd b)
  show ?case
  proof (intro allI impI)
    fix t rest and fuel :: nat
    assume "jsonText fmt (Bool b) = Some t" "2 * length t \<le> fuel"
    then obtain f where "fuel = Suc f" "t = (if b then ''true'' else ''false'')"
      by (cases fuel; cases b) auto
    then show "parseValue rd fuel (t @ rest) = Some (Bool b, rest)"
      using parseValue_true[of rd f rest] parseValue_false[of rd f rest] by simp
  qed
next
  case (4 fmt rd n)
  then have num: "jsonNumber (fmt n)" and readsBack: "rd (fmt n) = Some n" by simp_all
  from number_start[OF num] obtain c cs where c: "fmt n = c # cs" "c = CHR ''-'' \<or> isDigit c" by blast
  show ?case
  proof (intro allI impI)
    fix t rest and fuel :: nat
    assume "jsonText fmt (Num n) = Some t" and d: "delimited rest" and len: "2 * length t \<le> fuel"
    then have t: "t = fmt n" by auto
    obtain f where f: "fuel = Suc f" using len t c by (cases fuel) auto
    have "parseValue rd (Suc f) (c # (cs @ rest)) = parseNumber rd (c # (cs @ rest))"
      using parseValue_num[OF c(2)] .
    then have "parseValue rd fuel (fmt n @ rest) = parseNumber rd (fmt n @ rest)" using c f by simp
    then show "parseValue rd fuel (t @ rest) = Some (Num n, rest)"
      using parseNumber_token[of "fmt n" rd n rest] num readsBack d t by simp
  qed
next
  case (5 fmt rd s)
  show ?case
  proof (intro allI impI)
    fix t rest and fuel :: nat
    assume "jsonText fmt (Str s) = Some t" "2 * length t \<le> fuel"
    then obtain f where f: "fuel = Suc f" "t = jsonQuote s" by (cases fuel) (auto simp: jsonQuote_def)
    show "parseValue rd fuel (t @ rest) = Some (Str s, rest)"
      using parseValue_str[of rd f "concat (map jsonEscape s) @ CHR 0x22 # rest"] parseChars_quoted[of s rest] f
      by (simp add: jsonQuote_def)
  qed
next
  case (6 fmt rd vs)
  then have safe: "jsonSafeElements fmt rd vs" by simp
  show ?case
  proof (intro allI impI)
    fix t rest and fuel :: nat
    assume "jsonText fmt (Arr vs) = Some t" and len: "2 * length t \<le> fuel"
    then have t: "t = CHR ''['' # join (jsonElements fmt vs) '','' @ '']''" by auto
    obtain f where f: "fuel = Suc f" using len t by (cases fuel) auto
    show "parseValue rd fuel (t @ rest) = Some (Arr vs, rest)"
    proof (cases "vs = []")
      case True
      then show ?thesis using t f parseValue_empty_arr[of rd f rest] by simp
    next
      case False
      from elements_start[OF safe False] obtain d r
        where j: "join (jsonElements fmt vs) '','' = d # r" and d: "valueStart d" by blast
      have "2 * length (join (jsonElements fmt vs) '','') + 1 \<le> f" using t len f by auto
      with 6 safe False
      have "parseElements rd f (join (jsonElements fmt vs) '','' @ CHR '']'' # rest) = Some (vs, rest)"
        by blast
      then have "parseElements rd f (d # (r @ CHR '']'' # rest)) = Some (vs, rest)" using j by simp
      then show ?thesis using parseValue_arr[OF d, of rd f "r @ CHR '']'' # rest"] t f j by simp
    qed
  qed
next
  case (7 fmt rd kvs)
  then have safe: "jsonSafeMembers fmt rd kvs" and dist: "distinct (map fst kvs)" by simp_all
  show ?case
  proof (intro allI impI)
    fix t rest and fuel :: nat
    assume "jsonText fmt (Obj kvs) = Some t" and len: "2 * length t \<le> fuel"
    then have t: "t = CHR ''{'' # join (jsonMembers fmt kvs) '','' @ ''}''" by auto
    obtain f where f: "fuel = Suc f" using len t by (cases fuel) auto
    show "parseValue rd fuel (t @ rest) = Some (Obj kvs, rest)"
    proof (cases "kvs = []")
      case True
      then show ?thesis using t f parseValue_empty_obj[of rd f rest] by simp
    next
      case False
      from members_start[OF safe False] obtain r
        where j: "join (jsonMembers fmt kvs) '','' = CHR 0x22 # r" and d: "valueStart (CHR 0x22)" by blast
      have "2 * length (join (jsonMembers fmt kvs) '','') + 1 \<le> f" using t len f by auto
      with 7 safe dist False
      have "parseMembers rd f (join (jsonMembers fmt kvs) '','' @ CHR ''}'' # rest) = Some (kvs, rest)"
        by blast
      then have "parseMembers rd f (CHR 0x22 # (r @ CHR ''}'' # rest)) = Some (kvs, rest)" using j by simp
      then show ?thesis
        using parseValue_obj[OF d, of rd f "r @ CHR ''}'' # rest"] t f j
        by (simp add: foldl_assign_distinct[OF dist])
    qed
  qed
next
  case (8 fmt rd m)
  then show ?case by simp
next
  case (9 fmt rd)
  then show ?case by simp
next
  case (10 fmt rd v vs)
  then have sv: "jsonSafe fmt rd v" and svs: "jsonSafeElements fmt rd vs" by simp_all
  from text_start[OF sv] obtain t where t: "jsonText fmt v = Some t" by blast
  show ?case
  proof (intro allI impI)
    fix rest and fuel :: nat
    assume len: "2 * length (join (jsonElements fmt (v # vs)) '','') + 1 \<le> fuel"
    then obtain f where f: "fuel = Suc f" by (cases fuel) auto
    show "parseElements rd fuel (join (jsonElements fmt (v # vs)) '','' @ CHR '']'' # rest) = Some (v # vs, rest)"
    proof (cases "vs = []")
      case True
      have "2 * length t \<le> f" using len f t True by simp
      with 10(1) sv t have "parseValue rd f (t @ CHR '']'' # rest) = Some (v, CHR '']'' # rest)"
        using delimited_punct(3) by blast
      from parseElements_last[OF this] show ?thesis using f t True by simp
    next
      case False
      let ?J = "join (jsonElements fmt vs) '',''"
      have j: "join (jsonElements fmt (v # vs)) '','' = t @ '','' @ ?J"
        using t join_cons[OF elements_nonempty[OF False]] by simp
      have "2 * length t \<le> f" using len f j by simp
      with 10(1) sv t
      have "parseValue rd f (t @ CHR '','' # (?J @ CHR '']'' # rest)) = Some (v, CHR '','' # (?J @ CHR '']'' # rest))"
        using delimited_punct(2) by blast
      from parseElements_step[OF this]
      have step: "parseElements rd (Suc f) (t @ CHR '','' # (?J @ CHR '']'' # rest)) =
            map_option (\<lambda>(vs, r''). (v # vs, r'')) (parseElements rd f (?J @ CHR '']'' # rest))" .
      have "2 * length ?J + 1 \<le> f" using len f j by simp
      with 10(2) sv svs False
      have "parseElements rd f (?J @ CHR '']'' # rest) = Some (vs, rest)" by blast
      then show ?thesis using step f j by simp
    qed
  qed
next
  case (11 fmt rd)
  then show ?case by simp
next
  case (12 fmt rd k v kvs)
  then have sv: "jsonSafe fmt rd v" and skvs: "jsonSafeMembers fmt rd kvs" and wf: "utf8wf k" by simp_all
  from text_start[OF sv] obtain t where t: "jsonText fmt v = Some t" by blast
  let ?K = "concat (map jsonEscape k)"
  show ?case
  proof (intro allI impI)
    fix rest and fuel :: nat
    assume len: "2 * length (join (jsonMembers fmt ((k, v) # kvs)) '','') + 1 \<le> fuel"
    then obtain f where f: "fuel = Suc f" by (cases fuel) auto
    show "parseMembers rd fuel (join (jsonMembers fmt ((k, v) # kvs)) '','' @ CHR ''}'' # rest) = Some ((k, v) # kvs, rest)"
    proof (cases "kvs = []")
      case True
      have j: "join (jsonMembers fmt ((k, v) # kvs)) '','' = CHR 0x22 # (?K @ CHR 0x22 # CHR '':'' # t)"
        using t True by (simp add: jsonQuote_def)
      have key: "parseChars (?K @ CHR 0x22 # (CHR '':'' # (t @ CHR ''}'' # rest))) = Some (k, CHR '':'' # (t @ CHR ''}'' # rest))"
        using parseChars_quoted .
      have "2 * length t \<le> f" using len f j by simp
      with 12(1) wf sv t have "parseValue rd f (t @ CHR ''}'' # rest) = Some (v, CHR ''}'' # rest)"
        using delimited_punct(4) by blast
      from parseMembers_last[OF key this]
      have "parseMembers rd fuel (join (jsonMembers fmt ((k, v) # kvs)) '','' @ CHR ''}'' # rest) = Some ([(k, v)], rest)"
        unfolding f j by simp
      then show ?thesis using True by simp
    next
      case False
      let ?J = "join (jsonMembers fmt kvs) '',''"
      have j: "join (jsonMembers fmt ((k, v) # kvs)) '','' = CHR 0x22 # (?K @ CHR 0x22 # CHR '':'' # t) @ '','' @ ?J"
        using t join_cons[OF members_nonempty[OF skvs False]] by (simp add: jsonQuote_def)
      have key: "parseChars (?K @ CHR 0x22 # (CHR '':'' # (t @ CHR '','' # (?J @ CHR ''}'' # rest)))) =
                 Some (k, CHR '':'' # (t @ CHR '','' # (?J @ CHR ''}'' # rest)))"
        using parseChars_quoted .
      have "2 * length t \<le> f" using len f j by simp
      with 12(1) wf sv t
      have "parseValue rd f (t @ CHR '','' # (?J @ CHR ''}'' # rest)) = Some (v, CHR '','' # (?J @ CHR ''}'' # rest))"
        using delimited_punct(2) by blast
      from parseMembers_step[OF key this]
      have step: "parseMembers rd (Suc f) (CHR 0x22 # (?K @ CHR 0x22 # (CHR '':'' # (t @ CHR '','' # (?J @ CHR ''}'' # rest))))) =
            map_option (\<lambda>(kvs, r''). ((k, v) # kvs, r'')) (parseMembers rd f (?J @ CHR ''}'' # rest))" .
      have "2 * length ?J + 1 \<le> f" using len f j by simp
      with 12(2) wf sv skvs False
      have "parseMembers rd f (?J @ CHR ''}'' # rest) = Some (kvs, rest)" by blast
      with step
      have "parseMembers rd (Suc f) (CHR 0x22 # (?K @ CHR 0x22 # (CHR '':'' # (t @ CHR '','' # (?J @ CHR ''}'' # rest))))) =
            Some ((k, v) # kvs, rest)" by simp
      then show ?thesis unfolding f j by simp
    qed
  qed
qed

lemma jsonParse_jsonText:
  assumes "jsonSafe fmt rd v" "jsonText fmt v = Some t"
  shows "jsonParse rd t = Some v"
proof -
  have "parseValue rd (2 * length t + 2) (t @ []) = Some (v, [])"
    using parse_text(1)[OF assms(1)] assms(2) delimited_punct(1) by (meson le_add1)
  then show ?thesis by (simp add: jsonParse_def skipWs_def)
qed

lemma ascii_prefix: "ascii a \<Longrightarrow> utf8wf (a @ b) = utf8wf b"
  by (induction a) (simp_all add: ascii_def)

lemma ascii_wf: "ascii a \<Longrightarrow> utf8wf a"
  using ascii_prefix[of a "[]"] by simp

lemma utf8wf_append: "utf8wf a \<Longrightarrow> utf8wf b \<Longrightarrow> utf8wf (a @ b)"
proof (induction a rule: utf8wf.induct)
  case 1
  then show ?case by simp
next
  case (2 c cs)
  show ?case
  proof (cases "(of_char c :: nat) < 0x80")
    case True
    then show ?thesis using 2 by simp
  next
    case n1: False
    show ?thesis
    proof (cases "0xC2 \<le> (of_char c :: nat) \<and> (of_char c :: nat) \<le> 0xDF")
      case True
      then obtain c1 r where cs: "cs = c1 # r" using 2(5) n1 by (cases cs) (simp_all add: Let_def)
      then have "utf8wf r" "between 0x80 0xBF c1" using 2(5) n1 True by (simp_all add: Let_def)
      then show ?thesis using 2(2)[OF refl n1 True cs] 2(6) n1 True cs by (simp add: Let_def)
    next
      case n2: False
      show ?thesis
      proof (cases "0xE0 \<le> (of_char c :: nat) \<and> (of_char c :: nat) \<le> 0xEF")
        case True
        then obtain c1 c2 r where cs: "cs = c1 # c2 # r"
          using 2(5) n1 n2 by (cases cs; cases "tl cs") (simp_all add: Let_def)
        then have r: "utf8wf r" using 2(5) n1 n2 True by (simp add: Let_def)
        have "utf8wf (r @ b)" using 2(3)[OF refl n1 n2 True cs[unfolded list.inject] refl r 2(6)] .
        then show ?thesis using 2(5) n1 n2 True cs by (simp add: Let_def)
      next
        case n3: False
        then have t: "0xF0 \<le> (of_char c :: nat) \<and> (of_char c :: nat) \<le> 0xF4"
          using 2(5) n1 n2 by (simp add: Let_def split: if_splits)
        then obtain c1 c2 c3 r where cs: "cs = c1 # c2 # c3 # r"
          using 2(5) n1 n2 n3 by (cases cs; cases "tl cs"; cases "tl (tl cs)") (simp_all add: Let_def)
        then have r: "utf8wf r" using 2(5) n1 n2 n3 t by (simp add: Let_def)
        have "utf8wf (r @ b)" using 2(4) n1 n2 n3 t cs r 2(6) by blast
        then show ?thesis using 2(5) n1 n2 n3 t cs by (simp add: Let_def)
      qed
    qed
  qed
qed

lemma hexValue_ascii: "hexValue c = Some d \<Longrightarrow> (of_char c :: nat) < 128"
  by (simp add: hexValue_def Let_def split: if_splits)

lemma hexLower_ascii: "d < 16 \<Longrightarrow> (of_char (hexLower d) :: nat) < 128"
  using hexValue_ascii[OF hexValue_hexLower] .

lemma hexUpper_ascii: "d < 16 \<Longrightarrow> (of_char (hexUpper d) :: nat) < 128"
  using hexValue_ascii[OF hexValue_hexUpper] .

lemma escape_low:
  assumes "(of_char c :: nat) < 128"
  shows "ascii (jsonEscape c)"
proof -
  have hi: "(of_char c :: nat) div 16 < 16" using assms by simp
  have lo: "(of_char c :: nat) mod 16 < 16" by simp
  show ?thesis
    using assms hexLower_ascii[OF hi] hexLower_ascii[OF lo]
    by (simp add: jsonEscape_def ascii_def)
qed

lemma escape_high:
  assumes "\<not> (of_char c :: nat) < 128"
  shows "jsonEscape c = [c]"
proof -
  have "c \<noteq> CHR 0x22" "c \<noteq> CHR 0x5C" "c \<noteq> CHR 0x08" "c \<noteq> CHR 0x0C" "c \<noteq> CHR 0x0A"
    "c \<noteq> CHR 0x0D" "c \<noteq> CHR 0x09" "\<not> (of_char c :: nat) < 32"
    using assms by auto
  then show ?thesis by (simp add: jsonEscape_def)
qed

lemma between_high: "between lo hi c \<Longrightarrow> 128 \<le> lo \<Longrightarrow> jsonEscape c = [c]"
  by (rule escape_high) (simp add: between_def)

lemma escape_wf: "utf8wf s \<Longrightarrow> utf8wf (concat (map jsonEscape s))"
proof (induction s rule: utf8wf.induct)
  case 1
  then show ?case by simp
next
  case (2 c cs)
  show ?case
  proof (cases "(of_char c :: nat) < 0x80")
    case True
    then have "utf8wf (concat (map jsonEscape cs))" using 2 by simp
    then show ?thesis using ascii_prefix[OF escape_low[OF True]] by simp
  next
    case n1: False
    have e: "jsonEscape c = [c]" using escape_high[OF n1] .
    show ?thesis
    proof (cases "0xC2 \<le> (of_char c :: nat) \<and> (of_char c :: nat) \<le> 0xDF")
      case True
      then obtain c1 r where cs: "cs = c1 # r" using 2(5) n1 by (cases cs) (simp_all add: Let_def)
      then have r: "utf8wf r" and b: "between 0x80 0xBF c1" using 2(5) n1 True by (simp_all add: Let_def)
      have e1: "jsonEscape c1 = [c1]" using between_high[OF b] by simp
      show ?thesis using 2(2)[OF refl n1 True cs r] n1 True cs b by (simp add: Let_def e e1)
    next
      case n2: False
      show ?thesis
      proof (cases "0xE0 \<le> (of_char c :: nat) \<and> (of_char c :: nat) \<le> 0xEF")
        case True
        then obtain c1 c2 r where cs: "cs = c1 # c2 # r"
          using 2(5) n1 n2 by (cases cs; cases "tl cs") (simp_all add: Let_def)
        then have r: "utf8wf r"
          and b1: "between (if (of_char c :: nat) = 0xE0 then 0xA0 else 0x80) (if (of_char c :: nat) = 0xED then 0x9F else 0xBF) c1"
          and b2: "between 0x80 0xBF c2"
          using 2(5) n1 n2 True by (simp_all add: Let_def)
        have e1: "jsonEscape c1 = [c1]" using between_high[OF b1] by simp
        have e2: "jsonEscape c2 = [c2]" using between_high[OF b2] by simp
        have "utf8wf (concat (map jsonEscape r))" using 2(3) n1 n2 True cs r by blast
        then show ?thesis using n1 n2 True cs b1 b2 by (simp add: Let_def e e1 e2)
      next
        case n3: False
        then have t: "0xF0 \<le> (of_char c :: nat) \<and> (of_char c :: nat) \<le> 0xF4"
          using 2(5) n1 n2 by (simp add: Let_def split: if_splits)
        then obtain c1 c2 c3 r where cs: "cs = c1 # c2 # c3 # r"
          using 2(5) n1 n2 n3 by (cases cs; cases "tl cs"; cases "tl (tl cs)") (simp_all add: Let_def)
        then have r: "utf8wf r"
          and b1: "between (if (of_char c :: nat) = 0xF0 then 0x90 else 0x80) (if (of_char c :: nat) = 0xF4 then 0x8F else 0xBF) c1"
          and b2: "between 0x80 0xBF c2" and b3: "between 0x80 0xBF c3"
          using 2(5) n1 n2 n3 t by (simp_all add: Let_def)
        have e1: "jsonEscape c1 = [c1]" using between_high[OF b1] by simp
        have e2: "jsonEscape c2 = [c2]" using between_high[OF b2] by simp
        have e3: "jsonEscape c3 = [c3]" using between_high[OF b3] by simp
        have "utf8wf (concat (map jsonEscape r))" using 2(4) n1 n2 n3 t cs r by blast
        then show ?thesis using n1 n2 n3 t cs b1 b2 b3 by (simp add: Let_def e e1 e2 e3)
      qed
    qed
  qed
qed

lemma quote_wf: "utf8wf s \<Longrightarrow> utf8wf (jsonQuote s)"
  using utf8wf_append[OF escape_wf, of s "[CHR 0x22]"] by (simp add: jsonQuote_def)

lemma numChar_ascii: "isNumChar c \<Longrightarrow> (of_char c :: nat) < 128"
  by (auto simp: isNumChar_def isDigit_def)

lemma number_wf: "jsonNumber t \<Longrightarrow> utf8wf t"
proof (rule ascii_wf)
  assume "jsonNumber t"
  from number_numChars[OF this] show "ascii t"
    by (simp add: ascii_def list_all_iff numChar_ascii)
qed

lemma join_wf: "list_all utf8wf xs \<Longrightarrow> utf8wf (join xs '','')"
proof (induction xs "'',''" rule: join.induct)
  case 1
  then show ?case by simp
next
  case (2 x)
  then show ?case by simp
next
  case (3 x y ys)
  then have x: "utf8wf x" and "utf8wf (join (y # ys) '','')" by simp_all
  then have "utf8wf ('','' @ join (y # ys) '','')" by simp
  from utf8wf_append[OF x this] show ?case by simp
qed

lemma text_wf:
  "jsonSafe fmt rd v \<Longrightarrow> (\<forall>t. jsonText fmt v = Some t \<longrightarrow> utf8wf t)"
  "jsonSafeElements fmt rd vs \<Longrightarrow> list_all utf8wf (jsonElements fmt vs)"
  "jsonSafeMembers fmt rd kvs \<Longrightarrow> list_all utf8wf (jsonMembers fmt kvs)"
proof (induction fmt rd v and fmt rd vs and fmt rd kvs rule: jsonSafe_jsonSafeElements_jsonSafeMembers.induct)
  case (3 fmt rd b)
  then show ?case by (cases b) auto
next
  case (4 fmt rd n)
  then show ?case by (auto simp: number_wf)
next
  case (5 fmt rd s)
  then show ?case by (auto simp: quote_wf)
next
  case (6 fmt rd vs)
  then have "utf8wf (join (jsonElements fmt vs) '','')" by (simp add: join_wf)
  from utf8wf_append[OF this, of "'']''"] show ?case by auto
next
  case (7 fmt rd kvs)
  then have "utf8wf (join (jsonMembers fmt kvs) '','')" by (simp add: join_wf)
  from utf8wf_append[OF this, of "''}''"] show ?case by auto
next
  case (10 fmt rd v vs)
  then have sv: "jsonSafe fmt rd v" by simp
  from text_start[OF sv] obtain t where "jsonText fmt v = Some t" by blast
  then show ?case using 10 by simp
next
  case (12 fmt rd k v kvs)
  then have sv: "jsonSafe fmt rd v" and k: "utf8wf k" by simp_all
  from text_start[OF sv] obtain t where t: "jsonText fmt v = Some t" by blast
  then have "utf8wf t" using 12 by simp
  then have "utf8wf ('':'' @ t)" by simp
  from utf8wf_append[OF quote_wf[OF k] this] show ?case using 12 t by simp
qed simp_all

lemma hexUpper_not_amp: "d < 16 \<Longrightarrow> hexUpper d \<noteq> CHR ''&''"
  using hexValue_hexUpper[of d] by (auto simp: hexValue_def)

lemma uriEncode_no_amp: "CHR ''&'' \<notin> set (uriEncode s)"
proof (induction s)
  case Nil
  then show ?case by simp
next
  case (Cons c s)
  have hi: "(of_char c :: nat) div 16 < 16"
    using of_char_below[of c] by (simp add: less_mult_imp_div_less)
  have lo: "(of_char c :: nat) mod 16 < 16" by simp
  have "uriUnreserved c \<Longrightarrow> c \<noteq> CHR ''&''" by (auto simp: uriUnreserved_def Let_def)
  then show ?case using Cons hexUpper_not_amp[OF hi] hexUpper_not_amp[OF lo] by auto
qed

lemma queryOf_path:
  assumes "CHR ''?'' \<notin> set p"
  shows "queryOf (p @ CHR ''?'' # q) = q"
proof -
  have "dropWhile (\<lambda>c. c \<noteq> CHR ''?'') (p @ CHR ''?'' # q) = CHR ''?'' # q"
    using assms by (induction p) auto
  then show ?thesis by (simp add: queryOf_def)
qed

lemma queryOf_none:
  assumes "CHR ''?'' \<notin> set p"
  shows "queryOf p = []"
proof -
  have d: "dropWhile (\<lambda>c. c \<noteq> CHR ''?'') p = []" using assms by (induction p) auto
  show ?thesis unfolding queryOf_def d by simp
qed

lemma configValue_path:
  assumes "CHR ''?'' \<notin> set p"
  shows "configValue (p @ ''?'' @ (''CONFIG'' @ ''='' @ uriEncode s)) = Some (uriEncode s)"
proof -
  have q: "queryOf (p @ ''?'' @ (''CONFIG'' @ ''='' @ uriEncode s)) = ''CONFIG='' @ uriEncode s"
    using queryOf_path[OF assms, of "''CONFIG='' @ uriEncode s"] by simp
  show ?thesis unfolding configValue_def q using uriEncode_no_amp[of s]
    by (simp add: startsWith_def)
qed

lemma decodeConfig_path:
  assumes "CHR ''?'' \<notin> set p" "jsonSafe fmt rd v"
  shows "decodeConfig rd (p @ ''?'' @ (''CONFIG'' @ ''='' @ uriEncode (stringify fmt v))) = Some v"
proof -
  from text_start[OF assms(2)] obtain t where t: "jsonText fmt v = Some t" by blast
  then have s: "stringify fmt v = t" by (simp add: stringify_def)
  have wf: "utf8wf t" using text_wf(1)[OF assms(2)] t by blast
  show ?thesis
    unfolding decodeConfig_def configValue_path[OF assms(1)] s
    by (simp add: decode_encode[OF wf] jsonParse_jsonText[OF assms(2) t])
qed

lemma decodeConfig_none: "CHR ''?'' \<notin> set p \<Longrightarrow> decodeConfig rd p = None"
  by (simp add: decodeConfig_def configValue_def queryOf_none startsWith_def)

section \<open>The claims\<close>

text \<open>
  C10. A call that is not an export and is answered with a status from 201 to 299
  resolves with \<^verbatim>\<open>undefined\<close>: the listener makes the single call \<^verbatim>\<open>resolve()\<close>,
  whatever the body is and whatever \<^verbatim>\<open>JSON.parse\<close> would make of it.
\<close>

theorem sendV2Request_other_2xx:
  assumes "200 \<le> statusCode" "statusCode < 300" "statusCode \<noteq> 200"
    and "analytics env (trace st) (v2Request env st uriPath reqMethod config header) = Reply statusCode bytes"
  shows "v2End env False statusCode (utf8 env bytes) = Some [Resolve Undefined] \<and>
         fst (sendV2Request env st uriPath reqMethod config header False) = Resolved Undefined"
  using assms(4) v2End_other_2xx[OF assms(1-3)]
  by (simp add: sendV2Request_def Let_def)

theorem sendV2Request_other_2xx_witness:
  "(200::nat) \<le> 204 \<and> (204::nat) < 300 \<and> (204::nat) \<noteq> 200 \<and>
   analytics envNoContent (trace (exampleClient (Str ''tok0'')))
     (v2Request envNoContent (exampleClient (Str ''tok0'')) ''/restapi/v2/workspaces/1/views/2'' ''DELETE'' None [])
     = Reply 204 [] \<and>
   v2End envNoContent False 204 (utf8 envNoContent []) = Some [Resolve Undefined] \<and>
   fst (sendV2Request envNoContent (exampleClient (Str ''tok0'')) ''/restapi/v2/workspaces/1/views/2'' ''DELETE'' None [] False)
     = Resolved Undefined"
proof -
  have h: "analytics envNoContent (trace (exampleClient (Str ''tok0'')))
     (v2Request envNoContent (exampleClient (Str ''tok0'')) ''/restapi/v2/workspaces/1/views/2'' ''DELETE'' None [])
     = Reply 204 []"
    by (simp add: example_defs)
  show ?thesis
    using sendV2Request_other_2xx[of 204, OF _ _ _ h] h by simp
qed

text \<open>
  C8. Whenever the \<^verbatim>\<open>end\<close> listener of sendV2Request runs to its end, the last call
  it makes is \<^verbatim>\<open>resolve()\<close>; for a response outside 2xx whose body is an envelope it
  calls \<^verbatim>\<open>reject(respJSON.data)\<close> and then \<^verbatim>\<open>resolve()\<close>, both on the same promise.
\<close>

theorem v2End_resolve_last:
  "(\<forall>calls. v2End env isExportReq statusCode data = Some calls \<longrightarrow>
       calls \<noteq> [] \<and> last calls = Resolve Undefined) \<and>
   (\<not> startsWith (decimal statusCode) ''2'' \<and> JSON_parse env data = Some respJSON \<and>
      getProp respJSON ''data'' = Some d \<longrightarrow>
       v2End env isExportReq statusCode data = Some [Reject d, Resolve Undefined])"
  by (auto simp: v2End_def Let_def split: option.splits if_splits)

theorem v2End_resolve_last_witness:
  \<open>\<not> startsWith (decimal 400) ''2'' \<and>
   JSON_parse envDenied ''{"data":{"errorCode":7103}}'' = Some (Obj [(''data'', Obj [(''errorCode'', Num 7103)])]) \<and>
   getProp (Obj [(''data'', Obj [(''errorCode'', Num 7103)])]) ''data'' = Some (Obj [(''errorCode'', Num 7103)]) \<and>
   v2End envDenied True 400 ''{"data":{"errorCode":7103}}'' =
     Some [Reject (Obj [(''errorCode'', Num 7103)]), Resolve Undefined] \<and>
   last [Reject (Obj [(''errorCode'', Num 7103)]), Resolve Undefined] = Resolve Undefined\<close>
proof -
  have a: "\<not> startsWith (decimal 400) ''2''"
    by (simp add: startsWith_def decimal.simps)
  have b: \<open>JSON_parse envDenied ''{"data":{"errorCode":7103}}'' = Some (Obj [(''data'', Obj [(''errorCode'', Num 7103)])])\<close>
    by (simp add: example_defs)
  have c: "getProp (Obj [(''data'', Obj [(''errorCode'', Num 7103)])]) ''data'' = Some (Obj [(''errorCode'', Num 7103)])"
    by simp
  show ?thesis
    using v2End_resolve_last[of envDenied True 400 \<open>''{"data":{"errorCode":7103}}''\<close>
            "Obj [(''data'', Obj [(''errorCode'', Num 7103)])]" "Obj [(''errorCode'', Num 7103)]"]
          a b c
    by simp
qed

text \<open>
  C2. With a token at hand, a response whose three-digit status is outside 200..299 and
  whose envelope carries a payload with an error code other than the token-expired one
  makes handleV2Request reject with that payload, \<^verbatim>\<open>respJSON.data\<close>; the only thing the
  call sends after the token is at hand is that one request: no token request, no second
  attempt.
\<close>

theorem handleV2Request_api_error:
  assumes ready: "ensureAccessToken env st = (Resolved t, st1)"
    and reply: "analytics env (trace st1) (v2Request env st1 uriPath method config header) = Reply statusCode bytes"
    and status: "100 \<le> statusCode" "statusCode < 1000" "statusCode < 200 \<or> 300 \<le> statusCode"
    and parsed: "JSON_parse env (utf8 env bytes) = Some respJSON"
    and payload: "getProp respJSON ''data'' = Some error"
    and code: "getProp error ''errorCode'' = Some code" "\<not> eq8535 code"
  shows "handleV2Request env st uriPath method config header isExportReq =
           (Rejected error, logEvent (ApiRequest (v2Request env st1 uriPath method config header)) st1)"
proof -
  have "\<not> startsWith (decimal statusCode) ''2''"
    using status(3) by (auto simp: startsWith_2xx[OF status(1,2)])
  then have "v2End env isExportReq statusCode (utf8 env bytes) = Some [Reject error, Resolve Undefined]"
    using parsed payload by (rule v2End_failed)
  then have "sendV2Request env st1 uriPath method config header isExportReq =
      (Rejected error, logEvent (ApiRequest (v2Request env st1 uriPath method config header)) st1)"
    using reply by (simp add: sendV2Request_def Let_def)
  then show ?thesis
    using ready code by (simp add: handleV2Request_def)
qed

theorem handleV2Request_api_error_witness:
  \<open>ensureAccessToken envDenied (exampleClient (Str ''tok0'')) = (Resolved (Str ''tok0''), exampleClient (Str ''tok0'')) \<and>
   analytics envDenied (trace (exampleClient (Str ''tok0'')))
     (v2Request envDenied (exampleClient (Str ''tok0'')) ''/restapi/v2/orgs'' ''GET'' None []) =
     Reply 400 ''{"data":{"errorCode":7103}}'' \<and>
   (100::nat) \<le> 400 \<and> (400::nat) < 1000 \<and> ((400::nat) < 200 \<or> (300::nat) \<le> 400) \<and>
   JSON_parse envDenied (utf8 envDenied ''{"data":{"errorCode":7103}}'') =
     Some (Obj [(''data'', Obj [(''errorCode'', Num 7103)])]) \<and>
   getProp (Obj [(''data'', Obj [(''errorCode'', Num 7103)])]) ''data'' = Some (Obj [(''errorCode'', Num 7103)]) \<and>
   getProp (Obj [(''errorCode'', Num 7103)]) ''errorCode'' = Some (Num 7103) \<and>
   \<not> eq8535 (Num 7103) \<and>
   handleV2Request envDenied (exampleClient (Str ''tok0'')) ''/restapi/v2/orgs'' ''GET'' None [] False =
     (Rejected (Obj [(''errorCode'', Num 7103)]),
      logEvent (ApiRequest (v2Request envDenied (exampleClient (Str ''tok0'')) ''/restapi/v2/orgs'' ''GET'' None []))
        (exampleClient (Str ''tok0'')))\<close>
proof -
  have a: "ensureAccessToken envDenied (exampleClient (Str ''tok0'')) = (Resolved (Str ''tok0''), exampleClient (Str ''tok0''))"
    by (simp add: ensureAccessToken_def exampleClient_def)
  have b: \<open>analytics envDenied (trace (exampleClient (Str ''tok0'')))
     (v2Request envDenied (exampleClient (Str ''tok0'')) ''/restapi/v2/orgs'' ''GET'' None []) =
     Reply 400 ''{"data":{"errorCode":7103}}''\<close>
    by (simp add: example_defs)
  have c: \<open>JSON_parse envDenied (utf8 envDenied ''{"data":{"errorCode":7103}}'') =
     Some (Obj [(''data'', Obj [(''errorCode'', Num 7103)])])\<close>
    by (simp add: example_defs)
  have d: "getProp (Obj [(''data'', Obj [(''errorCode'', Num 7103)])]) ''data'' = Some (Obj [(''errorCode'', Num 7103)])"
    by simp
  have e: "getProp (Obj [(''errorCode'', Num 7103)]) ''errorCode'' = Some (Num 7103)" by simp
  have f: "\<not> eq8535 (Num 7103)" by simp
  show ?thesis
    using handleV2Request_api_error[OF a b _ _ _ c d e f, of False] a b c d e f by simp
qed






text \<open>
  C4. On a response that parses to something other than \<^verbatim>\<open>null\<close>, getOauth looks at the
  \<^verbatim>\<open>error\<close> field: when it is truthy the promise is rejected with
  \<^verbatim>\<open>{errorCode: '0', errorMessage: error}\<close>, otherwise it is resolved with the value of the
  \<^verbatim>\<open>access_token\<close> field, present or not. refreshZohoToken of the relay looks at
  \<^verbatim>\<open>access_token\<close>: a truthy one is stored and returned, otherwise an error is thrown
  whose message ends with the \<^verbatim>\<open>error\<close> field, or with \<^verbatim>\<open>Unknown error\<close>.
\<close>

theorem getOauth_tests_error_field:
  "(accounts env (trace st) (oauthRequest st) = Reply code bytes \<and>
    JSON_parse env (utf8 env bytes) = Some respJSON \<and>
    getProp respJSON ''error'' = Some e \<and>
    getProp respJSON ''access_token'' = Some tok \<longrightarrow>
      fst (getOauth env st) =
        (if truthy e then Rejected (Obj [(''errorCode'', Str ''0''), (''errorMessage'', e)])
         else Resolved tok)) \<and>
   (accounts env (wire rs) (refreshRequest rs) = Reply code' bytes' \<and>
    JSON_parse env (utf8 env bytes') = Some data \<and>
    getProp data ''access_token'' = Some tok' \<and>
    getProp data ''error'' = Some e' \<longrightarrow>
      fst (refreshZohoToken env rs) =
        (if truthy tok' then Returned tok'
         else Threw (NativeError (''Failed to refresh Zoho token: '' @
                ToString env (if truthy e' then e' else Str ''Unknown error'')))))"
  by (simp add: getOauth_def oauthEnd_def refreshZohoToken_def Let_def)

theorem getOauth_tests_error_field_witness:
  \<open>accounts envRefused (trace clientTok0) (oauthRequest clientTok0) = Reply 400 ''{"error":"invalid_code"}'' \<and>
   JSON_parse envRefused (utf8 envRefused ''{"error":"invalid_code"}'') = Some (Obj [(''error'', Str ''invalid_code'')]) \<and>
   getProp (Obj [(''error'', Str ''invalid_code'')]) ''error'' = Some (Str ''invalid_code'') \<and>
   getProp (Obj [(''error'', Str ''invalid_code'')]) ''access_token'' = Some Undefined \<and>
   fst (getOauth envRefused clientTok0) =
     Rejected (Obj [(''errorCode'', Str ''0''), (''errorMessage'', Str ''invalid_code'')]) \<and>
   accounts envRefused (wire relayTok0) (refreshRequest relayTok0) = Reply 400 ''{"error":"invalid_code"}'' \<and>
   fst (refreshZohoToken envRefused relayTok0) =
     Threw (NativeError ''Failed to refresh Zoho token: invalid_code'')\<close>
proof -
  have a: \<open>accounts envRefused (trace clientTok0) (oauthRequest clientTok0) = Reply 400 ''{"error":"invalid_code"}''\<close>
    by (simp add: example_defs)
  have b: \<open>JSON_parse envRefused (utf8 envRefused ''{"error":"invalid_code"}'') = Some (Obj [(''error'', Str ''invalid_code'')])\<close>
    by (simp add: example_defs)
  have c: "getProp (Obj [(''error'', Str ''invalid_code'')]) ''error'' = Some (Str ''invalid_code'')" by simp
  have d: "getProp (Obj [(''error'', Str ''invalid_code'')]) ''access_token'' = Some Undefined" by simp
  have e: \<open>accounts envRefused (wire relayTok0) (refreshRequest relayTok0) = Reply 400 ''{"error":"invalid_code"}''\<close>
    by (simp add: example_defs)
  show ?thesis
    using getOauth_tests_error_field[of envRefused clientTok0 400 \<open>''{"error":"invalid_code"}''\<close>
            "Obj [(''error'', Str ''invalid_code'')]" "Str ''invalid_code''" Undefined
            relayTok0 400 \<open>''{"error":"invalid_code"}''\<close>
            "Obj [(''error'', Str ''invalid_code'')]" Undefined "Str ''invalid_code''"]
          a b c d e
    by (simp add: example_defs)
qed

theorem getOauth_resolves_without_token:
  \<open>accounts envEmptyGrant (trace clientNoToken) (oauthRequest clientNoToken) = Reply 200 ''{}'' \<and>
   JSON_parse envEmptyGrant (utf8 envEmptyGrant ''{}'') = Some (Obj []) \<and>
   map_of ([] :: (string \<times> jsval) list) ''access_token'' = None \<and>
   fst (getOauth envEmptyGrant clientNoToken) = Resolved Undefined\<close>
  by (simp add: example_defs client_defs Let_def)

text \<open>
  C9. createWorkspace and rename write their first argument into the config object they
  are given, under \<^verbatim>\<open>workspaceName\<close> and \<^verbatim>\<open>viewName\<close>: after the call the object has
  that key with that value, and every other key as before. getAdmins, which has nothing
  to add, leaves the object as it was.
\<close>

theorem facade_writes_into_config:
  "snd (snd (createWorkspace env st org workspaceName config)) = assign ''workspaceName'' workspaceName config \<and>
   snd (snd (rename env st view viewName config)) = assign ''viewName'' viewName config \<and>
   snd (snd (getAdmins env st org config)) = config \<and>
   map_of (assign k v config) k = Some v \<and>
   (k' \<noteq> k \<longrightarrow> map_of (assign k v config) k' = map_of config k')"
  by (simp add: third_createWorkspace third_rename third_getAdmins map_of_assign_same map_of_assign_other)

theorem facade_writes_into_config_witness:
  "''responseFormat'' \<noteq> ''workspaceName'' \<and>
   snd (snd (createWorkspace envFresh clientNoToken salesOrg (Str ''Sales'') [(''responseFormat'', Str ''json'')])) =
     [(''responseFormat'', Str ''json''), (''workspaceName'', Str ''Sales'')] \<and>
   map_of (assign ''workspaceName'' (Str ''Sales'') [(''responseFormat'', Str ''json'')]) ''responseFormat'' =
     Some (Str ''json'')"
  using facade_writes_into_config[of envFresh clientNoToken salesOrg "Str ''Sales''"
          "[(''responseFormat'', Str ''json'')]" salesView Undefined "''workspaceName''" "Str ''Sales''" "''responseFormat''"]
  by simp

theorem createWorkspace_changes_config:
  "snd (snd (createWorkspace envFresh clientNoToken salesOrg (Str ''Sales'') [])) =
     [(''workspaceName'', Str ''Sales'')] \<and>
   snd (snd (createWorkspace envFresh clientNoToken salesOrg (Str ''Sales'') [])) \<noteq> [] \<and>
   snd (snd (rename envFresh clientNoToken salesView (Str ''Q3'') [(''viewName'', Str ''draft'')])) =
     [(''viewName'', Str ''Q3'')]"
  by (simp add: createWorkspace_def rename_def Let_def split: prod.splits outcome.splits option.splits)

text \<open>
  C6, at a body that is not UTF-8 text. Both senders resolve on status 200 without
  parsing the body; sendExportRequest writes the byte FF to the file, while sendV2Request
  with \<^verbatim>\<open>isExportReq\<close> resolves with the text its \<^verbatim>\<open>data += chunk\<close> has made of the
  body, here U+FFFD, not with the byte received.
\<close>

theorem export_returns_text_not_bytes:
  "analytics envBinary (trace clientTok0) (v2Request envBinary clientTok0 exportUri ''GET'' None []) =
     Reply 200 [CHR 0xFF] \<and>
   JSON_parse envBinary (utf8 envBinary [CHR 0xFF]) = None \<and>
   fst (sendV2Request envBinary clientTok0 exportUri ''GET'' None [] True) =
     Resolved (Str [CHR 0xEF, CHR 0xBF, CHR 0xBD]) \<and>
   fst (sendExportRequest envBinary clientTok0 exportUri ''out.xlsx'' None []) = Resolved Undefined \<and>
   files (snd (sendExportRequest envBinary clientTok0 exportUri ''out.xlsx'' None [])) ''out.xlsx'' =
     Some [CHR 0xFF]"
  by (simp add: example_defs client_defs Let_def decimal.simps)




subsection \<open>The CONFIG parameter\<close>

text \<open>
  C5. The config of a request is serialized only when it is not \<^verbatim>\<open>null\<close> and has a key:
  then \<^verbatim>\<open>?CONFIG=\<close> and \<^verbatim>\<open>encodeURIComponent(JSON.stringify(config))\<close> are appended to
  the path. For a config that is JSON-safe (no \<^verbatim>\<open>undefined\<close> and no error object in it,
  numbers that the runtime prints as JSON numbers and reads back, strings that are text),
  decoding the single \<^verbatim>\<open>CONFIG\<close> parameter of that path with decodeURIComponent and
  parsing the result as JSON gives back the config, key for key and value for value.
  The built-ins are the ones of the ECMAScript standard, up to the printing and the
  reading of a number, and the path that is given has no query of its own.
\<close>

theorem config_round_trip:
  assumes "JSON_stringify env = stringify fmt" and "encodeURIComponent env = uriEncode"
    and "jsonSafe fmt rd (Obj cfg)" and "CHR ''?'' \<notin> set uriPath"
  shows "v2Path env uriPath None = uriPath \<and>
         v2Path env uriPath (Some []) = uriPath \<and>
         (cfg \<noteq> [] \<longrightarrow>
            v2Path env uriPath (Some cfg) = uriPath @ ''?CONFIG='' @ uriEncode (stringify fmt (Obj cfg)) \<and>
            decodeConfig rd (v2Path env uriPath (Some cfg)) = Some (Obj cfg))"
proof (intro conjI impI)
  show "v2Path env uriPath None = uriPath" by (simp add: v2Path_def)
  show "v2Path env uriPath (Some []) = uriPath" by (simp add: v2Path_def)
next
  assume "cfg \<noteq> []"
  then show path: "v2Path env uriPath (Some cfg) = uriPath @ ''?CONFIG='' @ uriEncode (stringify fmt (Obj cfg))"
    using assms(1,2) by (simp add: v2Path_def)
  have "decodeConfig rd (uriPath @ ''?'' @ (''CONFIG'' @ ''='' @ uriEncode (stringify fmt (Obj cfg)))) = Some (Obj cfg)"
    using decodeConfig_path[OF assms(4) assms(3)] .
  then show "decodeConfig rd (v2Path env uriPath (Some cfg)) = Some (Obj cfg)"
    unfolding path by simp
qed

theorem config_round_trip_witness:
  "JSON_stringify envCodec = stringify exampleFormat \<and> encodeURIComponent envCodec = uriEncode \<and>
   jsonSafe exampleFormat exampleRead (Obj exampleConfig) \<and> CHR ''?'' \<notin> set orgsPath \<and>
   exampleConfig \<noteq> [] \<and>
   decodeConfig exampleRead (v2Path envCodec orgsPath (Some exampleConfig)) = Some (Obj exampleConfig)"
proof -
  have a: "JSON_stringify envCodec = stringify exampleFormat" "encodeURIComponent envCodec = uriEncode"
    by (simp_all add: envCodec_def)
  have "exampleFormat 25 = ''25''"
    by (simp add: exampleFormat_def decimal.simps)
  then have b: "jsonSafe exampleFormat exampleRead (Obj exampleConfig)"
    by (simp add: exampleConfig_def exampleRead_def jsonNumber_def fractionOk_def isDigit_def between_def Let_def)
  have c: "CHR ''?'' \<notin> set orgsPath" by (simp add: orgsPath_def)
  have d: "exampleConfig \<noteq> []" by (simp add: exampleConfig_def)
  show ?thesis
    using config_round_trip[OF a b c] a b c d by blast
qed

end
